theory Spec2Isabelle
  imports Main
begin

section \<open>Texts and numbers\<close>

text \<open>
  Texts are \<open>string\<close>s. A JavaScript string is a sequence of UTF-16 code units; the
  model writes one \<open>char\<close> per code unit, which covers the code units below 256, and
  writes the two emoji of the source's notices by the UTF-8 bytes they have in the
  source file. The only place where the source counts code units is the chunking loop
  of \<open>doWriteReply\<close>, which is therefore defined over lists of any element type.

  Chat and message identifiers are JavaScript numbers that hold integers; a template
  literal prints such a number (below \<open>10^21\<close> in magnitude) in plain decimal.
\<close>

definition digit :: "nat \<Rightarrow> char" where
  "digit d = ''0123456789'' ! d"

function show_nat :: "nat \<Rightarrow> string" where
  "show_nat n = (if n < 10 then [digit n] else show_nat (n div 10) @ [digit (n mod 10)])"
  by pat_completeness auto
termination
  by (relation "measure id") auto

declare show_nat.simps [simp del]

definition show_int :: "int \<Rightarrow> string" where
  "show_int i = (if i < 0 then ''-'' @ show_nat (nat (- i)) else show_nat (nat i))"

text \<open>\<open>String.prototype.substring\<close> on indices that are natural numbers: both are clamped
  to the length and swapped when the first is the larger.\<close>

definition substring :: "'a list \<Rightarrow> nat \<Rightarrow> nat \<Rightarrow> 'a list" where
  "substring s a b =
     (let a' = min a (length s); b' = min b (length s)
      in take (max a' b' - min a' b') (drop (min a' b') s))"

definition startsWith :: "string \<Rightarrow> string \<Rightarrow> bool" where
  "startsWith s p = (take (length p) s = p)"

definition newline :: string where
  "newline = [CHR 0x0A]"

definition orange :: string where
  "orange = [CHR 0xF0, CHR 0x9F, CHR 0x8D, CHR 0x8A]"

definition clown :: string where
  "clown = [CHR 0xF0, CHR 0x9F, CHR 0xA4, CHR 0xA1]"

section \<open>Data\<close>

text \<open>Modelled from the spec: the type \<open>OpenAI.Chat.ChatCompletionMessageParam\<close> is declared
  in the provider's library; a turn is a role, one of system, user and assistant, and a
  content.\<close>

datatype role = System | User | Assistant

record turn =
  role :: role
  content :: string

record ChatContext =
  params :: "turn list"
  model :: string

text \<open>The fields of a chat message that the source reads: \<open>chat.id\<close>, \<open>message_id\<close>,
  \<open>from.id\<close>, \<open>text\<close> and \<open>reply_to_message\<close>.\<close>

datatype Message =
  Message (chat_id: int) (message_id: int) (from_id: "int option")
    (msg_text: "string option") (reply_to_message: "Message option")

definition getMessageId :: "Message \<Rightarrow> string" where
  "getMessageId msg = ''msgid:'' @ show_int (chat_id msg) @ ''-'' @ show_int (message_id msg)"

text \<open>A choice of a completion response: \<open>elem.message?.content\<close> is a string, \<open>null\<close>
  (a message whose content is \<open>None\<close>) or \<open>undefined\<close> (no message).\<close>

record ChatCompletionMessage =
  msg_content :: "string option"

record Choice =
  message :: "ChatCompletionMessage option"

datatype js_error = ProviderError string | TransportError string | TypeError string

fun err_message :: "js_error \<Rightarrow> string" where
  "err_message (ProviderError m) = m"
| "err_message (TransportError m) = m"
| "err_message (TypeError m) = m"

section \<open>The world: chat transport, completion provider, keyed store\<close>

datatype parse_mode = Markdown

datatype request =
  SendMessage int string "int option" "parse_mode option"
| EditMessageText string int int "parse_mode option"

datatype event =
  Telegram request "js_error + Message"
| Completions_create string "turn list" "js_error + Choice list option"
| Redis_set string string

text \<open>What \<open>JSON.parse(data) as ChatContext\<close> gives: a syntax error, a value that is falsy
  (\<open>null\<close>, \<open>false\<close>, \<open>0\<close>, the empty string), a value without a \<open>params\<close> array, on
  which \<open>context.params.push\<close> throws, or a value taken at the declared type.\<close>

datatype parsed = SyntaxError | Falsy | NotContext | Context ChatContext

text \<open>The collaborators are parameters: the transport and the provider answer a request
  given the calls made so far, and \<open>JSON.parse\<close> is the platform's. The keyed store is a
  map from keys to values, shared by the links and the contexts as in the source; its
  reads and writes succeed. The world also records every call to a collaborator and
  every write, in order. The lines written with \<open>console.log\<close> are not part of it.\<close>

record env =
  telegram :: "event list \<Rightarrow> request \<Rightarrow> js_error + Message"
  completions_create :: "event list \<Rightarrow> string \<Rightarrow> turn list \<Rightarrow> js_error + Choice list option"
  JSON_parse :: "string \<Rightarrow> parsed"

record world =
  redis :: "string \<rightharpoonup> string"
  trace :: "event list"

type_synonym 'a io = "world \<Rightarrow> world \<times> (js_error + 'a)"

definition return :: "'a \<Rightarrow> 'a io" where
  "return x w = (w, Inr x)"

definition throw :: "js_error \<Rightarrow> 'a io" where
  "throw e w = (w, Inl e)"

definition bind :: "'a io \<Rightarrow> ('a \<Rightarrow> 'b io) \<Rightarrow> 'b io" where
  "bind m f w = (case m w of (w', Inl e) \<Rightarrow> (w', Inl e) | (w', Inr x) \<Rightarrow> f x w')"

definition try_catch :: "'a io \<Rightarrow> (js_error \<Rightarrow> 'a io) \<Rightarrow> 'a io" where
  "try_catch m h w = (case m w of (w', Inl e) \<Rightarrow> h e w' | (w', Inr x) \<Rightarrow> (w', Inr x))"

definition call_telegram :: "env \<Rightarrow> request \<Rightarrow> Message io" where
  "call_telegram env req w =
     (let r = telegram env (trace w) req
      in (w\<lparr>trace := trace w @ [Telegram req r]\<rparr>, r))"

definition sendMessage :: "env \<Rightarrow> int \<Rightarrow> string \<Rightarrow> int option \<Rightarrow> parse_mode option \<Rightarrow> Message io" where
  "sendMessage env chatid txt reply_to pm = call_telegram env (SendMessage chatid txt reply_to pm)"

definition editMessageText :: "env \<Rightarrow> string \<Rightarrow> int \<Rightarrow> int \<Rightarrow> parse_mode option \<Rightarrow> Message io" where
  "editMessageText env txt chatid mid pm = call_telegram env (EditMessageText txt chatid mid pm)"

definition redis_set :: "string \<Rightarrow> string \<Rightarrow> unit io" where
  "redis_set k v w = (w\<lparr>redis := (redis w)(k \<mapsto> v), trace := trace w @ [Redis_set k v]\<rparr>, Inr ())"

definition redis_get :: "string \<Rightarrow> string option io" where
  "redis_get k w = (w, Inr (redis w k))"

section \<open>JSON.stringify of a context\<close>

definition dq :: char where
  "dq = CHR 0x22"

definition hex_digit :: "nat \<Rightarrow> char" where
  "hex_digit d = ''0123456789abcdef'' ! d"

definition quote_char :: "char \<Rightarrow> string" where
  "quote_char c =
     (if c = dq then [CHR 0x5C, dq]
      else if c = CHR 0x5C then [CHR 0x5C, CHR 0x5C]
      else if c = CHR 0x08 then [CHR 0x5C, CHR ''b'']
      else if c = CHR 0x0C then [CHR 0x5C, CHR ''f'']
      else if c = CHR 0x0A then [CHR 0x5C, CHR ''n'']
      else if c = CHR 0x0D then [CHR 0x5C, CHR ''r'']
      else if c = CHR 0x09 then [CHR 0x5C, CHR ''t'']
      else if (of_char c :: nat) < 32
        then [CHR 0x5C, CHR ''u'', CHR ''0'', CHR ''0'',
              hex_digit (of_char c div 16), hex_digit (of_char c mod 16)]
      else [c])"

definition QuoteJSONString :: "string \<Rightarrow> string" where
  "QuoteJSONString s = dq # concat (map quote_char s) @ [dq]"

fun role_name :: "role \<Rightarrow> string" where
  "role_name System = ''system''"
| "role_name User = ''user''"
| "role_name Assistant = ''assistant''"

definition stringify_turn :: "turn \<Rightarrow> string" where
  "stringify_turn t =
     ''{'' @ QuoteJSONString ''role'' @ '':'' @ QuoteJSONString (role_name (role t)) @ '',''
       @ QuoteJSONString ''content'' @ '':'' @ QuoteJSONString (content t) @ ''}''"

fun join_comma :: "string list \<Rightarrow> string" where
  "join_comma [] = []"
| "join_comma [x] = x"
| "join_comma (x # y # ys) = x @ '','' @ join_comma (y # ys)"

text \<open>The object is built as \<open>{ model: model, params: messages }\<close>, so \<open>model\<close> is its
  first key.\<close>

definition JSON_stringify :: "ChatContext \<Rightarrow> string" where
  "JSON_stringify c =
     ''{'' @ QuoteJSONString ''model'' @ '':'' @ QuoteJSONString (model c) @ '',''
       @ QuoteJSONString ''params'' @ '':['' @ join_comma (map stringify_turn (params c)) @ '']}''"

section \<open>The operations of bot.ts\<close>

definition template_content :: "Choice \<Rightarrow> string" where
  "template_content elem =
     (case message elem of
        None \<Rightarrow> ''undefined''
      | Some m \<Rightarrow> (case msg_content m of None \<Rightarrow> ''null'' | Some s \<Rightarrow> s))"

text \<open>\<open>resp.choices?.reduce(...)\<close>: \<open>undefined\<close> when the response has no choices field.\<close>

definition reduce_choices :: "Choice list option \<Rightarrow> string option" where
  "reduce_choices choices =
     map_option (foldl (\<lambda>accum elem. accum @ newline @ template_content elem) '''') choices"

definition getOpenAIReply :: "env \<Rightarrow> string \<Rightarrow> turn list \<Rightarrow> string option io" where
  "getOpenAIReply env overrideModel ps w =
     (let r = completions_create env (trace w) overrideModel ps;
          w' = w\<lparr>trace := trace w @ [Completions_create overrideModel ps r]\<rparr>
      in case r of Inl e \<Rightarrow> (w', Inl e) | Inr choices \<Rightarrow> (w', Inr (reduce_choices choices)))"

definition updateContext :: "string \<Rightarrow> ChatContext \<Rightarrow> unit io" where
  "updateContext context_id context = redis_set context_id (JSON_stringify context)"

definition linkMessageWithContext :: "string \<Rightarrow> string \<Rightarrow> unit io" where
  "linkMessageWithContext message_id' context_id = redis_set message_id' context_id"

definition PART_SIZE :: nat where
  "PART_SIZE = 2048"

function split_parts :: "'a list \<Rightarrow> nat \<Rightarrow> 'a list list \<Rightarrow> 'a list list" where
  "split_parts reply i parts =
     (if i < length reply
      then split_parts reply (i + PART_SIZE) (parts @ [substring reply i (i + PART_SIZE)])
      else parts)"
  by pat_completeness auto
termination
  by (relation "measure (\<lambda>(reply, i, parts). length reply - i)") (auto simp: PART_SIZE_def)

declare split_parts.simps [simp del]

definition fallback_notice :: "js_error \<Rightarrow> string" where
  "fallback_notice e = ''Error while parsing markdown, fallback to plaintext: '' @ err_message e"

text \<open>The second loop of \<open>doWriteReply\<close>, at index \<open>i\<close> with the parts from \<open>i\<close> on.\<close>

fun write_parts :: "env \<Rightarrow> int \<Rightarrow> Message \<Rightarrow> string \<Rightarrow> nat \<Rightarrow> string list \<Rightarrow> Message \<Rightarrow> unit io" where
  "write_parts env chatid respmsg context_id i [] prevmsg = return ()"
| "write_parts env chatid respmsg context_id i (part # rest) prevmsg =
     (if i = 0 then
        bind (try_catch
                (bind (editMessageText env part chatid (message_id respmsg) (Some Markdown))
                   (\<lambda>_. return ()))
                (\<lambda>e. bind (editMessageText env part chatid (message_id respmsg) None)
                   (\<lambda>_. bind (sendMessage env chatid (fallback_notice e) None None)
                   (\<lambda>_. return ()))))
          (\<lambda>_. write_parts env chatid respmsg context_id (i + 1) rest prevmsg)
      else
        bind (try_catch
                (sendMessage env chatid part (Some (message_id prevmsg)) (Some Markdown))
                (\<lambda>e. bind (sendMessage env chatid part (Some (message_id prevmsg)) None)
                   (\<lambda>msg2. bind (sendMessage env chatid (fallback_notice e) None None)
                   (\<lambda>_. return msg2))))
          (\<lambda>prevmsg'. bind (linkMessageWithContext (getMessageId prevmsg') context_id)
          (\<lambda>_. write_parts env chatid respmsg context_id (i + 1) rest prevmsg')))"

text \<open>The caller passes what \<open>getOpenAIReply\<close> returned; on \<open>undefined\<close> the read of
  \<open>reply.length\<close> throws.\<close>

definition doWriteReply :: "env \<Rightarrow> string option \<Rightarrow> Message \<Rightarrow> string \<Rightarrow> unit io" where
  "doWriteReply env reply respmsg context_id =
     (case reply of
        None \<Rightarrow> throw (TypeError ''Cannot read properties of undefined (reading 'length')'')
      | Some r \<Rightarrow>
          write_parts env (chat_id respmsg) respmsg context_id 0 (split_parts r 0 []) respmsg)"

definition waiting_text :: "string \<Rightarrow> string" where
  "waiting_text m = ''Waiting for reply from model `'' @ m @ ''`...''"

definition doOpenAI_try :: "env \<Rightarrow> Message \<Rightarrow> string \<Rightarrow> turn list \<Rightarrow> string \<Rightarrow> unit io" where
  "doOpenAI_try env usermsg m messages context_id =
     bind (sendMessage env (chat_id usermsg) (waiting_text m)
             (Some (message_id usermsg)) (Some Markdown))
       (\<lambda>respmsg. bind (updateContext context_id \<lparr>params = messages, model = m\<rparr>)
       (\<lambda>_. bind (linkMessageWithContext (getMessageId respmsg) context_id)
       (\<lambda>_. bind (getOpenAIReply env m messages)
       (\<lambda>reply. doWriteReply env reply respmsg context_id))))"

text \<open>The \<open>catch\<close> block sends the notice and logs; logging is left out of the model.\<close>

definition doOpenAI :: "env \<Rightarrow> Message \<Rightarrow> string \<Rightarrow> turn list \<Rightarrow> string \<Rightarrow> unit io" where
  "doOpenAI env usermsg m messages context_id =
     try_catch (doOpenAI_try env usermsg m messages context_id)
       (\<lambda>error. bind (sendMessage env (chat_id usermsg) (''Internal error, pls @'' @ orange) None None)
          (\<lambda>_. return ()))"

definition no_context_notice :: string where
  "no_context_notice = ''No context found for this message? This bot is a '' @ clown"

definition send_no_context :: "env \<Rightarrow> Message \<Rightarrow> unit io" where
  "send_no_context env usermsg =
     bind (sendMessage env (chat_id usermsg) no_context_notice (Some (message_id usermsg)) None)
       (\<lambda>_. return ())"

definition send_unsupported :: "env \<Rightarrow> Message \<Rightarrow> unit io" where
  "send_unsupported env usermsg =
     bind (sendMessage env (chat_id usermsg) ''Non-text message is currently unsupported''
             (Some (message_id usermsg)) None)
       (\<lambda>_. return ())"

text \<open>The value of \<open>context\<close> in \<open>reply_handler\<close>: \<open>null\<close> when the data is absent or
  empty, or when \<open>JSON.parse\<close> throws.\<close>

definition load_context :: "env \<Rightarrow> string option \<Rightarrow> parsed" where
  "load_context env data =
     (case data of
        None \<Rightarrow> Falsy
      | Some d \<Rightarrow>
          if d = [] then Falsy
          else (case JSON_parse env d of SyntaxError \<Rightarrow> Falsy | p \<Rightarrow> p))"

text \<open>\<open>doOpenAI\<close> is started without \<open>await\<close>: its effects are those of the call, and a
  rejection of it is an unhandled rejection, which the model reports as the handler's.\<close>

definition reply_handler :: "env \<Rightarrow> Message \<Rightarrow> unit io" where
  "reply_handler env usermsg =
     (case reply_to_message usermsg of
        None \<Rightarrow> return ()
      | Some replied \<Rightarrow>
          bind (redis_get (getMessageId replied))
            (\<lambda>found.
               case found of
                 None \<Rightarrow> send_no_context env usermsg
               | Some context_id \<Rightarrow>
                   if context_id = [] then send_no_context env usermsg
                   else
                     bind (redis_get context_id)
                       (\<lambda>data.
                          case load_context env data of
                            Context c \<Rightarrow>
                              (case msg_text usermsg of
                                 None \<Rightarrow> send_unsupported env usermsg
                               | Some t \<Rightarrow>
                                   doOpenAI env usermsg (model c)
                                     (params c @ [\<lparr>role = User, content = t\<rparr>]) context_id)
                          | NotContext \<Rightarrow>
                              (case msg_text usermsg of
                                 None \<Rightarrow> send_unsupported env usermsg
                               | Some t \<Rightarrow>
                                   throw (TypeError ''Cannot read properties of undefined (reading 'push')''))
                          | _ \<Rightarrow> send_no_context env usermsg)))"

section \<open>The dispatcher\<close>

record AppState =
  whitelist :: "int list"
  app_model :: string

definition bot_name :: string where
  "bot_name = ''@babababababababababababababot''"

text \<open>\<open>MSG_REGEX\<close> is \<open>/^\/openai(|3)(@babababababababababababababot)? (.+)/ms\<close>. With the
  flag \<open>s\<close> the dot matches every character, so the greedy last group runs to the end of
  the text; with the flag \<open>m\<close> the anchor matches at the start of the text and after
  every line terminator, of which the line feed and the carriage return are code units
  below 256. Of the alternatives of the first group the empty one is tried first, and the
  optional second group is tried before it is skipped. The result of \<open>match\<close> is the array
  of the whole match and the three groups, a group that took no part being \<open>undefined\<close>.\<close>

definition line_terminator :: "char \<Rightarrow> bool" where
  "line_terminator c = (c = CHR 0x0A \<or> c = CHR 0x0D)"

definition match_payload :: "string \<Rightarrow> string option" where
  "match_payload r =
     (case r of
        [] \<Rightarrow> None
      | c # p \<Rightarrow> if c = CHR '' '' \<and> p \<noteq> [] then Some p else None)"

definition match_bot :: "string \<Rightarrow> (string option \<times> string) option" where
  "match_bot r =
     (case (if startsWith r bot_name then match_payload (drop (length bot_name) r) else None) of
        Some p \<Rightarrow> Some (Some bot_name, p)
      | None \<Rightarrow> map_option (Pair None) (match_payload r))"

definition match_here :: "string \<Rightarrow> string option list option" where
  "match_here s =
     (if startsWith s ''/openai'' then
        (let r = drop 7 s in
         case match_bot r of
           Some (g2, p) \<Rightarrow> Some [Some s, Some [], g2, Some p]
         | None \<Rightarrow>
             (case r of
                [] \<Rightarrow> None
              | c # r' \<Rightarrow>
                  if c = CHR ''3'' then
                    (case match_bot r' of
                       Some (g2, p) \<Rightarrow> Some [Some s, Some ''3'', g2, Some p]
                     | None \<Rightarrow> None)
                  else None))
      else None)"

fun match_from :: "bool \<Rightarrow> string \<Rightarrow> string option list option" where
  "match_from at_line_start [] = None"
| "match_from at_line_start (c # cs) =
     (case (if at_line_start then match_here (c # cs) else None) of
        Some m \<Rightarrow> Some m
      | None \<Rightarrow> match_from (line_terminator c) cs)"

definition match_MSG_REGEX :: "string \<Rightarrow> string option list option" where
  "match_MSG_REGEX t = match_from True t"

text \<open>Reading an array at an index: \<open>undefined\<close> beyond its end.\<close>

definition array_at :: "'a option list \<Rightarrow> nat \<Rightarrow> 'a option" where
  "array_at xs i = (if i < length xs then xs ! i else None)"

definition system_primer :: turn where
  "system_primer = \<lparr>role = System, content = ''you should be helpful''\<rparr>"

text \<open>The handler of \<open>bot.on("message", ...)\<close>, for one update. \<open>botID\<close> is the bot's own
  user id, read once at start. A matched group read where a string is declared is the
  empty text when it is \<open>undefined\<close>; the third group always took part. The names read
  for the log lines are left out with the logging. The other handler, of the texts that
  start with \<open>/start\<close>, only sends the usage text and never touches the store; it is not
  part of the model.\<close>

definition on_message :: "env \<Rightarrow> AppState \<Rightarrow> int \<Rightarrow> Message \<Rightarrow> unit io" where
  "on_message env state botID usermsg =
     (if chat_id usermsg \<notin> set (whitelist state) then
        bind (sendMessage env (chat_id usermsg) ''Permission denied'' None None)
          (\<lambda>_. return ())
      else
        (case msg_text usermsg of
           None \<Rightarrow> return ()
         | Some t \<Rightarrow>
             if t = [] then return ()
             else
               (let command_payload = match_MSG_REGEX t;
                    is_replying_to_bot =
                      (case reply_to_message usermsg of
                         None \<Rightarrow> False
                       | Some replied \<Rightarrow> from_id replied = Some botID)
                in case command_payload of
                     Some groups \<Rightarrow>
                       if length groups \<le> 1 then
                         bind (sendMessage env (chat_id usermsg) ''Usage: /openai <Text>'' None None)
                           (\<lambda>_. return ())
                       else
                         (let context_id =
                                ''ctx:'' @ show_int (chat_id usermsg) @ ''-''
                                  @ show_int (message_id usermsg);
                              messages =
                                [system_primer,
                                 \<lparr>role = User, content = (case array_at groups 3 of None \<Rightarrow> [] | Some p \<Rightarrow> p)\<rparr>];
                              m = (if array_at groups 1 = Some ''3'' then ''gpt-3.5-turbo''
                                   else app_model state)
                          in doOpenAI env usermsg m messages context_id)
                   | None \<Rightarrow>
                       if is_replying_to_bot then
                         if startsWith t [CHR 0x27, CHR 0x27] \<or> startsWith t ''//'' then return ()
                         else reply_handler env usermsg
                       else return ())))"

text \<open>Updates handled one after the other; an update that ends in an error does not stop
  the next.\<close>

fun run :: "env \<Rightarrow> AppState \<Rightarrow> int \<Rightarrow> Message list \<Rightarrow> world \<Rightarrow> world" where
  "run env state botID [] w = w"
| "run env state botID (u # us) w = run env state botID us (fst (on_message env state botID u w))"

section \<open>Traces and the store\<close>

text \<open>The store that a list of events leaves: only a \<open>Redis_set\<close> changes it. A crash in
  the middle of an update leaves the store of a prefix of the update's events.\<close>

definition apply_event :: "(string \<rightharpoonup> string) \<Rightarrow> event \<Rightarrow> (string \<rightharpoonup> string)" where
  "apply_event st e = (case e of Redis_set k v \<Rightarrow> st(k \<mapsto> v) | _ \<Rightarrow> st)"

definition replay :: "event list \<Rightarrow> (string \<rightharpoonup> string) \<Rightarrow> (string \<rightharpoonup> string)" where
  "replay evs st = foldl apply_event st evs"

text \<open>An event of the delivery loop for a conversation: a transport call, or the link of
  a message to the conversation's context id.\<close>

fun link_event :: "string \<Rightarrow> event \<Rightarrow> bool" where
  "link_event cid (Redis_set k v) = (startsWith k ''msgid:'' \<and> v = cid)"
| "link_event cid (Telegram req r) = True"
| "link_event cid (Completions_create m ps r) = False"

definition only_links :: "string \<Rightarrow> world \<Rightarrow> world \<Rightarrow> bool" where
  "only_links cid w w' =
     (\<exists>evs. trace w' = trace w @ evs \<and> redis w' = replay evs (redis w) \<and> list_all (link_event cid) evs)"

definition keeps :: "(world \<Rightarrow> world \<Rightarrow> bool) \<Rightarrow> 'a io \<Rightarrow> bool" where
  "keeps R m = (\<forall>w. R w (fst (m w)))"

definition placeholder_request :: "Message \<Rightarrow> string \<Rightarrow> request" where
  "placeholder_request usermsg m =
     SendMessage (chat_id usermsg) (waiting_text m) (Some (message_id usermsg)) (Some Markdown)"

definition internal_error_request :: "Message \<Rightarrow> request" where
  "internal_error_request usermsg =
     SendMessage (chat_id usermsg) (''Internal error, pls @'' @ orange) None None"

definition no_context_request :: "Message \<Rightarrow> request" where
  "no_context_request usermsg =
     SendMessage (chat_id usermsg) no_context_notice (Some (message_id usermsg)) None"

definition writes_to :: "string \<Rightarrow> event list \<Rightarrow> string list" where
  "writes_to k evs =
     concat (map (\<lambda>e. case e of Redis_set k' v \<Rightarrow> if k' = k then [v] else [] | _ \<Rightarrow> []) evs)"

fun request_text :: "request \<Rightarrow> string" where
  "request_text (SendMessage c t r pm) = t"
| "request_text (EditMessageText t c i pm) = t"

fun request_mode :: "request \<Rightarrow> parse_mode option" where
  "request_mode (SendMessage c t r pm) = pm"
| "request_mode (EditMessageText t c i pm) = pm"

fun request_chat :: "request \<Rightarrow> int" where
  "request_chat (SendMessage c t r pm) = c"
| "request_chat (EditMessageText t c i pm) = c"

fun to_plain :: "request \<Rightarrow> request" where
  "to_plain (SendMessage c t r pm) = SendMessage c t r None"
| "to_plain (EditMessageText t c i pm) = EditMessageText t c i None"

fun is_telegram :: "event \<Rightarrow> bool" where
  "is_telegram (Telegram q r) = True"
| "is_telegram _ = False"

section \<open>The properties stated\<close>

text \<open>The delivery protocol in the spec's words, as a check of the transport calls made for
  a list of fragments: each fragment is first requested with Markdown rendering; when
  that request is refused, the same request is made again without a rendering mode and
  accepted, and a notice of the fallback is sent to the chat; then the next fragment
  follows.\<close>

fun fallback_protocol :: "string list \<Rightarrow> event list \<Rightarrow> bool" where
  "fallback_protocol [] evs = (evs = [])"
| "fallback_protocol (p # ps) (Telegram q (Inr m) # evs) =
     (request_text q = p \<and> request_mode q = Some Markdown \<and> fallback_protocol ps evs)"
| "fallback_protocol (p # ps) (Telegram q (Inl e) # Telegram q2 (Inr m) # Telegram q3 (Inr n) # evs) =
     (request_text q = p \<and> request_mode q = Some Markdown \<and> q2 = to_plain q
      \<and> q3 = SendMessage (request_chat q) (fallback_notice e) None None
      \<and> fallback_protocol ps evs)"
| "fallback_protocol (p # ps) evs = False"

text \<open>The claim's words: after the initial system turn the roles alternate, starting with
  the user.\<close>

fun alternates_from :: "role \<Rightarrow> turn list \<Rightarrow> bool" where
  "alternates_from r [] = True"
| "alternates_from r (t # ts) =
     (role t = r \<and> alternates_from (if r = User then Assistant else User) ts)"

definition strictly_alternates :: "turn list \<Rightarrow> bool" where
  "strictly_alternates ts =
     (case ts of [] \<Rightarrow> False | t # rest \<Rightarrow> role t = System \<and> alternates_from User rest)"

text \<open>What the code keeps: the system primer first, then one or more turns, all of them
  the user's.\<close>

definition user_turns_only :: "turn list \<Rightarrow> bool" where
  "user_turns_only ts =
     (case ts of
        [] \<Rightarrow> False
      | t # us \<Rightarrow> t = system_primer \<and> us \<noteq> [] \<and> list_all (\<lambda>u. role u = User) us)"

text \<open>The store of the subsystem: a key of a message holds a context id, and a context id
  holds the text of a context with user turns only.\<close>

definition store_ok :: "(string \<rightharpoonup> string) \<Rightarrow> bool" where
  "store_ok st =
     (\<forall>k v. st k = Some v \<longrightarrow>
        (startsWith k ''msgid:'' \<and> startsWith v ''ctx:'')
        \<or> (startsWith k ''ctx:'' \<and> (\<exists>c. v = JSON_stringify c \<and> user_turns_only (params c))))"

section \<open>A JSON.parse that runs\<close>

text \<open>The theorems hold for every \<open>JSON_parse\<close>. The examples need one that runs: this
  one reads the texts that \<open>JSON_stringify\<close> writes and eight short texts of JSON that
  are not contexts, and reports every other text as a syntax error. Of the short texts,
  \<open>null\<close>, \<open>false\<close>, \<open>0\<close> and \<open>""\<close> are values that are falsy; \<open>{}\<close>, \<open>[]\<close>, \<open>true\<close> and \<open>1\<close>
  are values that are truthy and have no \<open>params\<close>.\<close>

definition expect :: "string \<Rightarrow> string \<Rightarrow> string option" where
  "expect p s = (if take (length p) s = p then Some (drop (length p) s) else None)"

definition hex_value :: "char \<Rightarrow> nat option" where
  "hex_value c = map_of (zip ''0123456789abcdef'' [0 ..< 16]) c"

definition simple_escape :: "char \<Rightarrow> char option" where
  "simple_escape e =
     (if e = dq then Some dq
      else if e = CHR 0x5C then Some (CHR 0x5C)
      else if e = CHR ''/'' then Some (CHR ''/'')
      else if e = CHR ''b'' then Some (CHR 0x08)
      else if e = CHR ''f'' then Some (CHR 0x0C)
      else if e = CHR ''n'' then Some (CHR 0x0A)
      else if e = CHR ''r'' then Some (CHR 0x0D)
      else if e = CHR ''t'' then Some (CHR 0x09)
      else None)"

definition push_char :: "char \<Rightarrow> (string \<times> string) option \<Rightarrow> (string \<times> string) option" where
  "push_char c = map_option (\<lambda>(s, r). (c # s, r))"

fun unquote :: "string \<Rightarrow> (string \<times> string) option" where
  "unquote [] = None"
| "unquote (c # cs) =
     (if c = dq then Some ([], cs)
      else if c = CHR 0x5C then
        (case cs of
           [] \<Rightarrow> None
         | e # cs' \<Rightarrow>
             if e = CHR ''u'' then
               (case cs' of
                  a # b # h # l # cs'' \<Rightarrow>
                    (case (hex_value h, hex_value l) of
                       (Some x, Some y) \<Rightarrow>
                         if a = CHR ''0'' \<and> b = CHR ''0'' then push_char (char_of (16 * x + y)) (unquote cs'')
                         else None
                     | _ \<Rightarrow> None)
                | _ \<Rightarrow> None)
             else
               (case simple_escape e of
                  None \<Rightarrow> None
                | Some ch \<Rightarrow> push_char ch (unquote cs')))
      else if (of_char c :: nat) < 32 then None
      else push_char c (unquote cs))"

definition role_of_name :: "string \<Rightarrow> role option" where
  "role_of_name n =
     (if n = ''system'' then Some System
      else if n = ''user'' then Some User
      else if n = ''assistant'' then Some Assistant
      else None)"

definition parse_turn :: "string \<Rightarrow> (turn \<times> string) option" where
  "parse_turn s =
     Option.bind (expect (''{'' @ QuoteJSONString ''role'' @ '':'' @ [dq]) s) (\<lambda>s1.
     Option.bind (unquote s1) (\<lambda>(n, s2).
     Option.bind (role_of_name n) (\<lambda>r.
     Option.bind (expect ('','' @ QuoteJSONString ''content'' @ '':'' @ [dq]) s2) (\<lambda>s3.
     Option.bind (unquote s3) (\<lambda>(c, s4).
     Option.bind (expect ''}'' s4) (\<lambda>s5.
     Some (\<lparr>role = r, content = c\<rparr>, s5)))))))"

fun parse_more :: "nat \<Rightarrow> string \<Rightarrow> (turn list \<times> string) option" where
  "parse_more 0 s = None"
| "parse_more (Suc n) [] = None"
| "parse_more (Suc n) (c # s) =
     (if c = CHR '']'' then Some ([], s)
      else if c = CHR '','' then
        Option.bind (parse_turn s) (\<lambda>(t, s').
        map_option (\<lambda>(ts, r). (t # ts, r)) (parse_more n s'))
      else None)"

definition parse_turns :: "string \<Rightarrow> (turn list \<times> string) option" where
  "parse_turns s =
     (case expect '']'' s of
        Some r \<Rightarrow> Some ([], r)
      | None \<Rightarrow>
          Option.bind (parse_turn s) (\<lambda>(t, s').
          map_option (\<lambda>(ts, r). (t # ts, r)) (parse_more (length s') s')))"

definition parse_object :: "string \<Rightarrow> ChatContext option" where
  "parse_object s =
     Option.bind (expect (''{'' @ QuoteJSONString ''model'' @ '':'' @ [dq]) s) (\<lambda>s1.
     Option.bind (unquote s1) (\<lambda>(m, s2).
     Option.bind (expect ('','' @ QuoteJSONString ''params'' @ '':['') s2) (\<lambda>s3.
     Option.bind (parse_turns s3) (\<lambda>(ts, s4).
     if s4 = ''}'' then Some \<lparr>params = ts, model = m\<rparr> else None))))"

definition parse_literal :: "string \<Rightarrow> parsed option" where
  "parse_literal s =
     (if s = ''null'' \<or> s = ''false'' \<or> s = ''0'' \<or> s = [dq, dq] then Some Falsy
      else if s = ''{}'' \<or> s = ''[]'' \<or> s = ''true'' \<or> s = ''1'' then Some NotContext
      else None)"

definition parse_context :: "string \<Rightarrow> parsed" where
  "parse_context s =
     (case parse_literal s of
        Some p \<Rightarrow> p
      | None \<Rightarrow> (case parse_object s of None \<Rightarrow> SyntaxError | Some c \<Rightarrow> Context c))"

section \<open>Sample collaborators\<close>

text \<open>A transport that accepts every request and numbers the messages it sends, a
  provider with one answer, a whitelist with chat 100, an empty store, and the command
  message of chat 100 with message id 55.\<close>

definition sample_telegram :: "event list \<Rightarrow> request \<Rightarrow> js_error + Message" where
  "sample_telegram tr req =
     (case req of
        SendMessage c t r p \<Rightarrow> Inr (Message c (56 + int (length tr)) (Some 7) (Some t) None)
      | EditMessageText t c i p \<Rightarrow> Inr (Message c i (Some 7) (Some t) None))"

definition sample_env :: env where
  "sample_env =
     \<lparr>telegram = sample_telegram,
      completions_create =
        (\<lambda>tr m ps. Inr (Some [\<lparr>message = Some \<lparr>msg_content = Some ''hi there''\<rparr>\<rparr>])),
      JSON_parse = parse_context\<rparr>"

definition sample_state :: AppState where
  "sample_state = \<lparr>whitelist = [100], app_model = ''gpt-4-turbo-preview''\<rparr>"

definition empty_world :: world where
  "empty_world = \<lparr>redis = Map.empty, trace = []\<rparr>"

definition hello_command :: Message where
  "hello_command = Message 100 55 (Some 1) (Some ''/openai hello'') None"

definition hello_context :: ChatContext where
  "hello_context =
     \<lparr>params = [system_primer, \<lparr>role = User, content = ''hello''\<rparr>], model = ''gpt-4-turbo-preview''\<rparr>"

definition sample_placeholder :: Message where
  "sample_placeholder = Message 100 56 (Some 7) (Some (waiting_text ''gpt-4-turbo-preview'')) None"

definition hi_there :: "Choice list" where
  "hi_there = [\<lparr>message = Some \<lparr>msg_content = Some ''hi there''\<rparr>\<rparr>]"

definition more_reply :: Message where
  "more_reply = Message 100 60 (Some 1) (Some ''tell me more'') (Some sample_placeholder)"

definition corrupt_world :: world where
  "corrupt_world =
     \<lparr>redis = [''msgid:100-56'' \<mapsto> ''ctx:100-55'', ''ctx:100-55'' \<mapsto> ''{oops''], trace = []\<rparr>"

definition long_answer :: "Choice list" where
  "long_answer = [\<lparr>message = Some \<lparr>msg_content = Some (replicate 4999 CHR ''a'')\<rparr>\<rparr>]"

definition long_env :: env where
  "long_env = sample_env\<lparr>completions_create := (\<lambda>tr m ps. Inr (Some long_answer))\<rparr>"

definition parse_error :: js_error where
  "parse_error = TransportError ''Bad Request: can't parse entities''"

definition picky_telegram :: "event list \<Rightarrow> request \<Rightarrow> js_error + Message" where
  "picky_telegram tr q =
     (if request_mode q = Some Markdown \<and> take 1 (request_text q) = ''*''
      then Inl parse_error
      else sample_telegram tr q)"

definition picky_env :: env where
  "picky_env = sample_env\<lparr>telegram := picky_telegram\<rparr>"

definition star_reply :: string where
  "star_reply = CHR ''*'' # replicate 2047 CHR ''a'' @ ''b''"

definition star_answer :: "Choice list" where
  "star_answer = [\<lparr>message = Some \<lparr>msg_content = Some (replicate 2047 CHR ''a'' @ ''*b'')\<rparr>\<rparr>]"

text \<open>A transport that cannot render a text starting with a star and refuses the notice of
  the fallback, and a provider whose answer makes the second fragment start with a star.\<close>

definition refusing_telegram :: "event list \<Rightarrow> request \<Rightarrow> js_error + Message" where
  "refusing_telegram tr q =
     (if take 5 (request_text q) = ''Error'' then Inl (TransportError ''Too Many Requests'')
      else picky_telegram tr q)"

definition refusing_env :: env where
  "refusing_env =
     sample_env\<lparr>telegram := refusing_telegram,
                completions_create := (\<lambda>tr m ps. Inr (Some star_answer))\<rparr>"

definition refused_world :: world where
  "refused_world =
     \<lparr>redis = [''ctx:100-55'' \<mapsto> JSON_stringify hello_context, ''msgid:100-56'' \<mapsto> ''ctx:100-55''],
      trace =
        [Telegram (placeholder_request hello_command ''gpt-4-turbo-preview'') (Inr sample_placeholder),
         Redis_set ''ctx:100-55'' (JSON_stringify hello_context),
         Redis_set ''msgid:100-56'' ''ctx:100-55'',
         Completions_create ''gpt-4-turbo-preview'' (params hello_context) (Inr (Some star_answer)),
         Telegram (EditMessageText (CHR 0x0A # replicate 2047 CHR ''a'') 100 56 (Some Markdown))
           (Inr (Message 100 56 (Some 7) (Some (CHR 0x0A # replicate 2047 CHR ''a'')) None)),
         Telegram (SendMessage 100 ''*b'' (Some 56) (Some Markdown)) (Inl parse_error),
         Telegram (SendMessage 100 ''*b'' (Some 56) None)
           (Inr (Message 100 62 (Some 7) (Some ''*b'') None)),
         Telegram (SendMessage 100 (fallback_notice parse_error) None None)
           (Inl (TransportError ''Too Many Requests'')),
         Telegram (internal_error_request hello_command)
           (Inr (Message 100 64 (Some 7) (Some (''Internal error, pls @'' @ orange)) None))]\<rparr>"

text \<open>A store in which the placeholder of the sample conversation is linked to a context
  id whose value is the text \<open>{}\<close>.\<close>

definition shapeless_world :: world where
  "shapeless_world =
     \<lparr>redis = [''msgid:100-56'' \<mapsto> ''ctx:100-55'', ''ctx:100-55'' \<mapsto> ''{}''], trace = []\<rparr>"

definition more_context :: ChatContext where
  "more_context =
     \<lparr>params = [system_primer, \<lparr>role = User, content = ''hello''\<rparr>,
                \<lparr>role = User, content = ''tell me more''\<rparr>],
      model = ''gpt-4-turbo-preview''\<rparr>"

section \<open>Chunking\<close>

lemma PART_SIZE_pos: "0 < PART_SIZE"
  by (simp add: PART_SIZE_def)

lemma substring_chunk: "i < length T \<Longrightarrow> substring T i (i + n) = take n (drop i T)"
  by (auto simp: substring_def Let_def min_def max_def)

lemma split_parts_acc: "split_parts T i parts = parts @ split_parts T i []"
proof (induction "length T - i" arbitrary: i parts rule: less_induct)
  case less
  show ?case
  proof (cases "i < length T")
    case True
    let ?p = "substring T i (i + PART_SIZE)"
    have dec: "length T - (i + PART_SIZE) < length T - i"
      using True PART_SIZE_pos by arith
    have "split_parts T i parts = split_parts T (i + PART_SIZE) (parts @ [?p])"
      using True by (subst split_parts.simps) simp
    also have "\<dots> = (parts @ [?p]) @ split_parts T (i + PART_SIZE) []"
      using less[OF dec] by blast
    also have "\<dots> = parts @ split_parts T (i + PART_SIZE) ([] @ [?p])"
      using less[OF dec, of "[?p]"] by simp
    also have "\<dots> = parts @ split_parts T i []"
      using True by (subst (2) split_parts.simps) simp
    finally show ?thesis .
  next
    case False
    then show ?thesis by (simp add: split_parts.simps)
  qed
qed

lemma split_parts_step:
  "i < length T \<Longrightarrow> split_parts T i [] = take PART_SIZE (drop i T) # split_parts T (i + PART_SIZE) []"
  by (subst split_parts.simps, subst split_parts_acc) (simp add: substring_chunk)

lemma split_parts_done: "\<not> i < length T \<Longrightarrow> split_parts T i [] = []"
  by (simp add: split_parts.simps)

lemma concat_split_parts: "concat (split_parts T i []) = drop i T"
proof (induction "length T - i" arbitrary: i rule: less_induct)
  case less
  show ?case
  proof (cases "i < length T")
    case True
    have dec: "length T - (i + PART_SIZE) < length T - i"
      using True PART_SIZE_pos by arith
    have "take PART_SIZE (drop i T) @ drop (i + PART_SIZE) T = drop i T"
      by (metis append_take_drop_id drop_drop add.commute)
    then show ?thesis
      using less[OF dec] True by (simp only: split_parts_step concat.simps)
  next
    case False
    then show ?thesis by (simp add: split_parts_done)
  qed
qed

lemma length_split_parts: "f \<in> set (split_parts T i []) \<Longrightarrow> length f \<le> PART_SIZE \<and> f \<noteq> []"
proof (induction "length T - i" arbitrary: i rule: less_induct)
  case less
  show ?case
  proof (cases "i < length T")
    case True
    have dec: "length T - (i + PART_SIZE) < length T - i"
      using True PART_SIZE_pos by arith
    from less.prems True
    have "f = take PART_SIZE (drop i T) \<or> f \<in> set (split_parts T (i + PART_SIZE) [])"
      by (simp add: split_parts_step)
    then show ?thesis
      using less.hyps[OF dec] True PART_SIZE_pos by auto
  next
    case False
    with less.prems show ?thesis by (simp add: split_parts_done)
  qed
qed

lemma nth_split_parts:
  "k < length (split_parts T i []) \<Longrightarrow>
   split_parts T i [] ! k = take PART_SIZE (drop (i + k * PART_SIZE) T)"
proof (induction k arbitrary: i)
  case 0
  then have "i < length T" by (cases "i < length T") (simp_all add: split_parts_done)
  then show ?case by (simp add: split_parts_step)
next
  case (Suc k)
  then have lt: "i < length T" by (cases "i < length T") (simp_all add: split_parts_done)
  with Suc.prems have "k < length (split_parts T (i + PART_SIZE) [])"
    by (simp add: split_parts_step)
  from Suc.IH[OF this] lt show ?case
    by (simp add: split_parts_step add.assoc add.commute add.left_commute)
qed

lemma split_parts_5000:
  assumes "length T = 5000"
  shows "split_parts T 0 [] = [take 2048 T, take 2048 (drop 2048 T), drop 4096 T]"
proof -
  have "split_parts T 0 [] = take PART_SIZE T # split_parts T PART_SIZE []" 
    using assms split_parts_step[of 0 T] by simp
  also have "split_parts T PART_SIZE [] = take PART_SIZE (drop PART_SIZE T) # split_parts T (PART_SIZE + PART_SIZE) []"
    using assms split_parts_step[of PART_SIZE T] by (simp add: PART_SIZE_def)
  also have "split_parts T (PART_SIZE + PART_SIZE) [] = take PART_SIZE (drop (PART_SIZE + PART_SIZE) T) # split_parts T (PART_SIZE + PART_SIZE + PART_SIZE) []"
    using assms split_parts_step[of "PART_SIZE + PART_SIZE" T] by (simp add: PART_SIZE_def)
  also have "split_parts T (PART_SIZE + PART_SIZE + PART_SIZE) [] = []"
    using assms by (simp add: split_parts_done PART_SIZE_def)
  finally show ?thesis using assms by (simp add: PART_SIZE_def)
qed

text \<open>
  C3. For every completion text \<open>T\<close> and the fixed maximum fragment size of 2048, the
  chunking loop of \<open>doWriteReply\<close> gives fragments that are non-empty and at most 2048
  long, whose concatenation is \<open>T\<close>, the fragment of index \<open>k\<close> being the contiguous
  piece of \<open>T\<close> that starts at \<open>k * 2048\<close>: nothing is lost and nothing overlaps.
\<close>

theorem chunk_completeness:
  "PART_SIZE = 2048
   \<and> (\<forall>f \<in> set (split_parts T 0 []). length f \<le> PART_SIZE \<and> f \<noteq> [])
   \<and> concat (split_parts T 0 []) = T
   \<and> (\<forall>k < length (split_parts T 0 []).
        split_parts T 0 [] ! k = take PART_SIZE (drop (k * PART_SIZE) T))"
proof -
  have "\<forall>k < length (split_parts T 0 []).
        split_parts T 0 [] ! k = take PART_SIZE (drop (k * PART_SIZE) T)"
    using nth_split_parts[of _ T 0] by simp
  then show ?thesis
    using length_split_parts[of _ T 0] concat_split_parts[of T 0]
    by (simp add: PART_SIZE_def)
qed

theorem chunk_completeness_witness:
  "PART_SIZE = 2048
   \<and> list_all (\<lambda>f. length f \<le> PART_SIZE \<and> f \<noteq> []) (split_parts (replicate 5000 CHR ''a'') 0 [])
   \<and> concat (split_parts (replicate 5000 CHR ''a'') 0 []) = replicate 5000 CHR ''a''
   \<and> split_parts (replicate 5000 CHR ''a'') 0 [] ! 2 = replicate 904 CHR ''a''"
proof -
  let ?T = "replicate 5000 CHR ''a''"
  have sp: "split_parts ?T 0 [] = [replicate 2048 CHR ''a'', replicate 2048 CHR ''a'', replicate 904 CHR ''a'']"
    using split_parts_5000[of ?T] by simp
  have "2 < length (split_parts ?T 0 [])" by (simp add: sp)
  with chunk_completeness[of ?T] show ?thesis
    by (simp add: list_all_iff PART_SIZE_def sp)
qed

section \<open>The assembled reply\<close>

lemma foldl_append_acc:
  "foldl (\<lambda>accum elem. accum @ g elem) acc cs = acc @ concat (map g cs)"
  by (induction cs arbitrary: acc) simp_all

lemma reduce_choices_concat:
  "reduce_choices (Some cs) = Some (concat (map (\<lambda>elem. CHR 0x0A # template_content elem) cs))"
  using foldl_append_acc[of "\<lambda>elem. newline @ template_content elem" "[]" cs]
  by (simp add: reduce_choices_def newline_def)

lemma length_concat_ge:
  "x \<in> set xs \<Longrightarrow> length (g x) \<le> length (concat (map g xs))"
  by (induction xs) auto

text \<open>
  C10. The reply that \<open>getOpenAIReply\<close> assembles is \<open>undefined\<close> when the response has
  no choices field; otherwise it is the concatenation, over the choices in order, of a
  newline followed by the choice's content as the template prints it. With at least one
  choice it starts with a newline and equals the content of none of the choices. The
  call returns this value whenever the provider answers, and the provider's error
  otherwise.
\<close>

theorem assembled_reply:
  "reduce_choices None = None
   \<and> reduce_choices (Some cs) = Some (concat (map (\<lambda>elem. CHR 0x0A # template_content elem) cs))
   \<and> (cs \<noteq> [] \<longrightarrow>
        (\<exists>rest. reduce_choices (Some cs) = Some (CHR 0x0A # rest))
        \<and> (\<forall>elem \<in> set cs. reduce_choices (Some cs) \<noteq> Some (template_content elem)))
   \<and> snd (getOpenAIReply env m ps w) =
       (case completions_create env (trace w) m ps of
          Inl e \<Rightarrow> Inl e
        | Inr choices \<Rightarrow> Inr (reduce_choices choices))"
proof -
  have starts: "\<exists>rest. reduce_choices (Some cs) = Some (CHR 0x0A # rest)" if "cs \<noteq> []"
    using that by (cases cs) (simp_all add: reduce_choices_concat)
  have differs: "reduce_choices (Some cs) \<noteq> Some (template_content elem)" if "elem \<in> set cs" for elem
  proof
    assume "reduce_choices (Some cs) = Some (template_content elem)"
    then have "length (concat (map (\<lambda>elem. CHR 0x0A # template_content elem) cs))
               = length (template_content elem)"
      by (simp add: reduce_choices_concat)
    moreover have "length (CHR 0x0A # template_content elem)
               \<le> length (concat (map (\<lambda>elem. CHR 0x0A # template_content elem) cs))"
      using that by (rule length_concat_ge)
    ultimately show False by simp
  qed
  have call: "snd (getOpenAIReply env m ps w) =
       (case completions_create env (trace w) m ps of
          Inl e \<Rightarrow> Inl e
        | Inr choices \<Rightarrow> Inr (reduce_choices choices))"
    by (simp add: getOpenAIReply_def Let_def split: sum.splits)
  have none: "reduce_choices None = None"
    by (simp add: reduce_choices_def)
  show ?thesis
    using starts differs call none reduce_choices_concat by blast
qed

theorem assembled_reply_witness:
  "reduce_choices (Some [\<lparr>message = Some \<lparr>msg_content = Some ''hi there''\<rparr>\<rparr>])
     = Some (CHR 0x0A # ''hi there'')
   \<and> reduce_choices (Some [\<lparr>message = Some \<lparr>msg_content = Some ''hi there''\<rparr>\<rparr>])
     \<noteq> Some ''hi there''"
  using assembled_reply[of "[\<lparr>message = Some \<lparr>msg_content = Some ''hi there''\<rparr>\<rparr>]"]
  by (simp add: template_content_def)

section \<open>The sample parser reads what JSON.stringify writes\<close>

lemma expect_append: "expect p (p @ r) = Some r"
  by (simp add: expect_def)

lemma hex_value_digit: "d < 16 \<Longrightarrow> hex_value (hex_digit d) = Some d"
proof -
  assume "d < 16"
  then have "d = 0 \<or> d = 1 \<or> d = 2 \<or> d = 3 \<or> d = 4 \<or> d = 5 \<or> d = 6 \<or> d = 7
      \<or> d = 8 \<or> d = 9 \<or> d = 10 \<or> d = 11 \<or> d = 12 \<or> d = 13 \<or> d = 14 \<or> d = 15"
    by arith
  then show ?thesis
    by (elim disjE) (simp_all add: hex_value_def hex_digit_def upt_rec)
qed

lemma unquote_quote_char:
  "unquote (quote_char c @ r) = push_char c (unquote r)"
proof -
  have u: "unquote (quote_char c @ r) = push_char c (unquote r)"
    if "(of_char c :: nat) < 32" "quote_char c = [CHR 0x5C, CHR ''u'', CHR ''0'', CHR ''0'',
              hex_digit (of_char c div 16), hex_digit (of_char c mod 16)]"
  proof -
    have "(of_char c :: nat) div 16 < 16" "(of_char c :: nat) mod 16 < 16"
      using that(1) by simp_all
    then have "hex_value (hex_digit (of_char c div 16)) = Some (of_char c div 16)"
      "hex_value (hex_digit (of_char c mod 16)) = Some (of_char c mod 16)"
      by (simp_all add: hex_value_digit)
    then show ?thesis
      by (simp add: that(2) dq_def)
  qed
  show ?thesis
  proof (cases "(of_char c :: nat) < 32")
    case True
    then show ?thesis
      using u by (auto simp: quote_char_def simple_escape_def dq_def)
  next
    case False
    then show ?thesis
      by (auto simp: quote_char_def simple_escape_def dq_def)
  qed
qed

lemma unquote_quoted:
  "unquote (concat (map quote_char s) @ dq # r) = Some (s, r)"
  by (induction s) (simp_all add: unquote_quote_char push_char_def)

lemma unquote_literal: "unquote (concat (map quote_char s) @ [dq] @ r) = Some (s, r)"
  using unquote_quoted[of s r] by simp

lemma role_of_role_name: "role_of_name (role_name r) = Some r"
  by (cases r) (simp_all add: role_of_name_def)

lemma stringify_turn_eq:
  "stringify_turn t @ r =
     (''{'' @ QuoteJSONString ''role'' @ '':'' @ [dq]) @
     (concat (map quote_char (role_name (role t))) @ [dq] @
      (('','' @ QuoteJSONString ''content'' @ '':'' @ [dq]) @
       (concat (map quote_char (content t)) @ [dq] @ (''}'' @ r))))"
  by (simp add: stringify_turn_def QuoteJSONString_def)

lemma parse_turn_stringify: "parse_turn (stringify_turn t @ r) = Some (t, r)"
  unfolding stringify_turn_eq parse_turn_def
  by (simp only: expect_append Option.bind.simps unquote_literal role_of_role_name prod.case) simp

lemma parse_more_turns:
  "length ts < n \<Longrightarrow>
   parse_more n (concat (map (\<lambda>t. CHR '','' # stringify_turn t) ts) @ CHR '']'' # r) = Some (ts, r)"
proof (induction ts arbitrary: n)
  case Nil
  then show ?case by (cases n) simp_all
next
  case (Cons t ts)
  then obtain k where n: "n = Suc k" "length ts < k" by (cases n) auto
  show ?case
    using Cons.IH[OF n(2)] by (simp add: n parse_turn_stringify)
qed

lemma join_comma_map:
  "join_comma (f t # map f ts) = f t @ concat (map (\<lambda>t. CHR '','' # f t) ts)"
  by (induction ts arbitrary: t) simp_all

lemma stringify_turn_brace: "\<exists>rest. stringify_turn t = CHR ''{'' # rest"
  by (simp add: stringify_turn_def)

lemma length_tail_ge:
  "length ts < length (concat (map (\<lambda>t. CHR '','' # stringify_turn t) ts) @ CHR '']'' # r)"
  by (induction ts) simp_all

lemma parse_turns_stringify:
  "parse_turns (join_comma (map stringify_turn ts) @ '']'' @ r) = Some (ts, r)"
proof (cases ts)
  case Nil
  then show ?thesis by (simp add: parse_turns_def expect_def)
next
  case (Cons t ts')
  obtain rest where b: "stringify_turn t = CHR ''{'' # rest"
    using stringify_turn_brace by blast
  let ?tail = "concat (map (\<lambda>t. CHR '','' # stringify_turn t) ts') @ CHR '']'' # r"
  have e: "join_comma (map stringify_turn ts) @ '']'' @ r = stringify_turn t @ ?tail"
    by (simp add: Cons join_comma_map)
  have x: "expect '']'' (stringify_turn t @ ?tail) = None"
    by (simp add: b expect_def)
  have pm: "parse_more (length ?tail) ?tail = Some (ts', r)"
    by (rule parse_more_turns[OF length_tail_ge])
  have "parse_turns (stringify_turn t @ ?tail) = Some (t # ts', r)"
    by (simp only: parse_turns_def x option.case parse_turn_stringify Option.bind.simps
          prod.case pm option.map)
  with e Cons show ?thesis
    by simp
qed

lemma JSON_stringify_eq:
  "JSON_stringify c =
     (''{'' @ QuoteJSONString ''model'' @ '':'' @ [dq]) @
     (concat (map quote_char (model c)) @ [dq] @
      (('','' @ QuoteJSONString ''params'' @ '':['') @
       (join_comma (map stringify_turn (params c)) @ '']'' @ ''}'')))"
  by (simp add: JSON_stringify_def QuoteJSONString_def)

lemma parse_object_stringify: "parse_object (JSON_stringify c) = Some c"
  unfolding JSON_stringify_eq parse_object_def
  by (simp only: expect_append Option.bind.simps unquote_literal parse_turns_stringify prod.case) simp

lemma parse_literal_stringify: "parse_literal (JSON_stringify c) = None"
  by (simp add: parse_literal_def JSON_stringify_def QuoteJSONString_def dq_def)

lemma parse_context_stringify: "parse_context (JSON_stringify c) = Context c"
  by (simp add: parse_context_def parse_literal_stringify parse_object_stringify)

section \<open>What an update does to the trace and the store\<close>

lemma replay_append: "replay (xs @ ys) st = replay ys (replay xs st)"
  by (simp add: replay_def)

lemma replay_Nil: "replay [] st = st"
  by (simp add: replay_def)

lemma replay_Cons: "replay (e # evs) st = replay evs (apply_event st e)"
  by (simp add: replay_def)

lemma only_links_refl: "only_links cid w w"
  by (simp add: only_links_def replay_Nil)

lemma only_links_trans: "only_links cid w w' \<Longrightarrow> only_links cid w' w'' \<Longrightarrow> only_links cid w w''"
  unfolding only_links_def
  by (elim exE conjE, rule_tac x = "evs @ evsa" in exI) (simp add: replay_append)

lemma keeps_return: "(\<And>w. R w w) \<Longrightarrow> keeps R (return x)"
  by (simp add: keeps_def return_def)

lemma keeps_throw: "(\<And>w. R w w) \<Longrightarrow> keeps R (throw e)"
  by (simp add: keeps_def throw_def)

lemma keeps_bind:
  assumes "\<And>w w' w''. R w w' \<Longrightarrow> R w' w'' \<Longrightarrow> R w w''"
    and "keeps R m" and "\<And>x. keeps R (f x)"
  shows "keeps R (bind m f)"
  unfolding keeps_def
proof
  fix w
  obtain w' r where mw: "m w = (w', r)" by (cases "m w")
  have 1: "R w w'" using assms(2) mw by (auto simp: keeps_def dest: spec[of _ w])
  show "R w (fst (bind m f w))"
  proof (cases r)
    case (Inl e)
    then show ?thesis using 1 mw by (simp add: bind_def)
  next
    case (Inr x)
    have "R w' (fst (f x w'))" using assms(3)[of x] by (simp add: keeps_def)
    then show ?thesis using 1 mw Inr assms(1) by (auto simp: bind_def)
  qed
qed

lemma keeps_try_catch:
  assumes "\<And>w w' w''. R w w' \<Longrightarrow> R w' w'' \<Longrightarrow> R w w''"
    and "keeps R m" and "\<And>e. keeps R (h e)"
  shows "keeps R (try_catch m h)"
  unfolding keeps_def
proof
  fix w
  obtain w' r where mw: "m w = (w', r)" by (cases "m w")
  have 1: "R w w'" using assms(2) mw by (auto simp: keeps_def dest: spec[of _ w])
  show "R w (fst (try_catch m h w))"
  proof (cases r)
    case (Inr x)
    then show ?thesis using 1 mw by (simp add: try_catch_def)
  next
    case (Inl e)
    have "R w' (fst (h e w'))" using assms(3)[of e] by (simp add: keeps_def)
    then show ?thesis using 1 mw Inl assms(1) by (auto simp: try_catch_def)
  qed
qed

lemma only_links_telegram: "keeps (only_links cid) (call_telegram env req)"
  by (simp add: keeps_def call_telegram_def Let_def only_links_def replay_Nil replay_Cons apply_event_def)

lemma only_links_link:
  "startsWith k ''msgid:'' \<Longrightarrow> keeps (only_links cid) (linkMessageWithContext k cid)"
  by (simp add: keeps_def linkMessageWithContext_def redis_set_def only_links_def replay_Nil replay_Cons apply_event_def)

lemma startsWith_getMessageId: "startsWith (getMessageId m) ''msgid:''"
  by (simp add: startsWith_def getMessageId_def)

lemmas only_links_intros =
  keeps_bind[where R = "only_links cid", OF only_links_trans]
  keeps_try_catch[where R = "only_links cid", OF only_links_trans]
  keeps_return[where R = "only_links cid", OF only_links_refl]
  keeps_throw[where R = "only_links cid", OF only_links_refl]
  for cid

lemma only_links_write_parts:
  "keeps (only_links cid) (write_parts env chatid respmsg cid i parts prevmsg)"
proof (induction parts arbitrary: i prevmsg)
  case Nil
  show ?case by (simp add: only_links_intros)
next
  case (Cons part rest)
  show ?case
    by (auto simp: sendMessage_def editMessageText_def
          intro!: only_links_intros only_links_telegram only_links_link startsWith_getMessageId Cons)
qed

lemma only_links_doWriteReply:
  "keeps (only_links cid) (doWriteReply env reply respmsg cid)"
  by (cases reply) (simp_all add: doWriteReply_def only_links_intros only_links_write_parts)

lemma doOpenAI_try_refused:
  assumes "telegram env (trace w) (placeholder_request usermsg m) = Inl e"
  shows "doOpenAI_try env usermsg m messages cid w =
         (w\<lparr>trace := trace w @ [Telegram (placeholder_request usermsg m) (Inl e)]\<rparr>, Inl e)"
  using assms
  by (simp add: doOpenAI_try_def bind_def sendMessage_def call_telegram_def Let_def
        placeholder_request_def)

lemma doOpenAI_try_started:
  assumes "telegram env (trace w) (placeholder_request usermsg m) = Inr respmsg"
  shows "doOpenAI_try env usermsg m messages cid w =
         (let ctx = JSON_stringify \<lparr>params = messages, model = m\<rparr>;
              w3 = w\<lparr>redis := (redis w)(cid \<mapsto> ctx, getMessageId respmsg \<mapsto> cid),
                     trace := trace w @ [Telegram (placeholder_request usermsg m) (Inr respmsg),
                                         Redis_set cid ctx,
                                         Redis_set (getMessageId respmsg) cid]\<rparr>;
              r = completions_create env (trace w3) m messages;
              w4 = w3\<lparr>trace := trace w3 @ [Completions_create m messages r]\<rparr>
          in case r of
               Inl e \<Rightarrow> (w4, Inl e)
             | Inr choices \<Rightarrow> doWriteReply env (reduce_choices choices) respmsg cid w4)"
  using assms
  by (simp add: doOpenAI_try_def bind_def sendMessage_def call_telegram_def Let_def
        placeholder_request_def updateContext_def linkMessageWithContext_def redis_set_def
        getOpenAIReply_def split: sum.splits)

lemma doOpenAI_catch:
  "doOpenAI env usermsg m messages cid w =
     (case doOpenAI_try env usermsg m messages cid w of
        (w1, Inr u) \<Rightarrow> (w1, Inr u)
      | (w1, Inl error) \<Rightarrow>
          (let r = telegram env (trace w1) (internal_error_request usermsg);
               w2 = w1\<lparr>trace := trace w1 @ [Telegram (internal_error_request usermsg) r]\<rparr>
           in case r of Inl e \<Rightarrow> (w2, Inl e) | Inr _ \<Rightarrow> (w2, Inr ())))"
  by (simp add: doOpenAI_def try_catch_def bind_def sendMessage_def call_telegram_def Let_def
        internal_error_request_def return_def split: prod.splits sum.splits)

lemma doOpenAI_try_shape:
  assumes ph: "telegram env (trace w) (placeholder_request usermsg m) = Inr respmsg"
    and run: "doOpenAI_try env usermsg m messages cid w = (w', res)"
  shows "\<exists>r rest.
           trace w' = trace w @ [Telegram (placeholder_request usermsg m) (Inr respmsg),
                                 Redis_set cid (JSON_stringify \<lparr>params = messages, model = m\<rparr>),
                                 Redis_set (getMessageId respmsg) cid,
                                 Completions_create m messages r] @ rest
           \<and> list_all (link_event cid) rest
           \<and> redis w' = replay rest ((redis w)(cid \<mapsto> JSON_stringify \<lparr>params = messages, model = m\<rparr>,
                                               getMessageId respmsg \<mapsto> cid))"
proof -
  define ctx where "ctx = JSON_stringify \<lparr>params = messages, model = m\<rparr>"
  define w3 where "w3 = w\<lparr>redis := (redis w)(cid \<mapsto> ctx, getMessageId respmsg \<mapsto> cid),
                     trace := trace w @ [Telegram (placeholder_request usermsg m) (Inr respmsg),
                                         Redis_set cid ctx,
                                         Redis_set (getMessageId respmsg) cid]\<rparr>"
  define r where "r = completions_create env (trace w3) m messages"
  define w4 where "w4 = w3\<lparr>trace := trace w3 @ [Completions_create m messages r]\<rparr>"
  have "doOpenAI_try env usermsg m messages cid w = (case r of
               Inl e \<Rightarrow> (w4, Inl e)
             | Inr choices \<Rightarrow> doWriteReply env (reduce_choices choices) respmsg cid w4)"
    unfolding r_def w4_def w3_def ctx_def
    by (rule doOpenAI_try_started[OF ph, of messages cid, unfolded Let_def])
  with run have eq: "(w', res) = (case r of
               Inl e \<Rightarrow> (w4, Inl e)
             | Inr choices \<Rightarrow> doWriteReply env (reduce_choices choices) respmsg cid w4)"
    by simp
  have "only_links cid w4 w'"
  proof (cases r)
    case (Inl e)
    with eq show ?thesis by (simp add: only_links_refl)
  next
    case (Inr choices)
    with eq have "w' = fst (doWriteReply env (reduce_choices choices) respmsg cid w4)"
      by (metis fst_conv old.sum.simps(6))
    then show ?thesis
      using only_links_doWriteReply[of cid env "reduce_choices choices" respmsg]
      by (simp add: keeps_def)
  qed
  then obtain rest where "trace w' = trace w4 @ rest" "redis w' = replay rest (redis w4)"
      "list_all (link_event cid) rest"
    by (auto simp: only_links_def)
  then show ?thesis
    by (intro exI[of _ r] exI[of _ rest]) (simp add: w4_def w3_def ctx_def)
qed

lemma doOpenAI_shape:
  assumes ph: "telegram env (trace w) (placeholder_request usermsg m) = Inr respmsg"
    and run: "doOpenAI env usermsg m messages cid w = (w', res)"
  shows "\<exists>r rest.
           trace w' = trace w @ [Telegram (placeholder_request usermsg m) (Inr respmsg),
                                 Redis_set cid (JSON_stringify \<lparr>params = messages, model = m\<rparr>),
                                 Redis_set (getMessageId respmsg) cid,
                                 Completions_create m messages r] @ rest
           \<and> list_all (link_event cid) rest
           \<and> redis w' = replay rest ((redis w)(cid \<mapsto> JSON_stringify \<lparr>params = messages, model = m\<rparr>,
                                               getMessageId respmsg \<mapsto> cid))"
proof -
  obtain w1 r1 where tr: "doOpenAI_try env usermsg m messages cid w = (w1, r1)"
    by (cases "doOpenAI_try env usermsg m messages cid w")
  from doOpenAI_try_shape[OF ph tr] obtain r rest where
    t1: "trace w1 = trace w @ [Telegram (placeholder_request usermsg m) (Inr respmsg),
                                 Redis_set cid (JSON_stringify \<lparr>params = messages, model = m\<rparr>),
                                 Redis_set (getMessageId respmsg) cid,
                                 Completions_create m messages r] @ rest"
    and l1: "list_all (link_event cid) rest"
    and s1: "redis w1 = replay rest ((redis w)(cid \<mapsto> JSON_stringify \<lparr>params = messages, model = m\<rparr>,
                                               getMessageId respmsg \<mapsto> cid))"
    by blast
  show ?thesis
  proof (cases r1)
    case (Inr u)
    with tr run have "w' = w1" by (simp add: doOpenAI_catch)
    with t1 l1 s1 show ?thesis by blast
  next
    case (Inl error)
    define q where "q = telegram env (trace w1) (internal_error_request usermsg)"
    from Inl tr run have w': "w' = w1\<lparr>trace := trace w1 @ [Telegram (internal_error_request usermsg) q]\<rparr>"
      by (auto simp: doOpenAI_catch Let_def q_def split: sum.splits)
    show ?thesis
      by (intro exI[of _ r] exI[of _ "rest @ [Telegram (internal_error_request usermsg) q]"])
         (simp add: w' t1 l1 s1 replay_append replay_Cons replay_Nil apply_event_def)
  qed
qed

lemma replay_links_other:
  "list_all (link_event cid) evs \<Longrightarrow> \<not> startsWith k ''msgid:'' \<Longrightarrow> replay evs st k = st k"
proof (induction evs arbitrary: st)
  case Nil
  show ?case by (simp add: replay_Nil)
next
  case (Cons e evs)
  then show ?case
    by (cases e) (auto simp: replay_Cons apply_event_def)
qed

lemma replay_links_value:
  "list_all (link_event cid) evs \<Longrightarrow> replay evs st k = st k \<or> replay evs st k = Some cid"
proof (induction evs arbitrary: st)
  case Nil
  show ?case by (simp add: replay_Nil)
next
  case (Cons e evs)
  then have "replay evs (apply_event st e) k = apply_event st e k
      \<or> replay evs (apply_event st e) k = Some cid" by simp
  moreover have "apply_event st e k = st k \<or> apply_event st e k = Some cid"
    using Cons.prems by (cases e) (auto simp: apply_event_def)
  ultimately show ?case by (auto simp: replay_Cons)
qed

lemma replay_links_kept:
  "list_all (link_event cid) evs \<Longrightarrow> st k = Some cid \<Longrightarrow> replay evs st k = Some cid"
  using replay_links_value[of cid evs st k] by auto

lemma writes_to_links:
  "list_all (link_event cid) evs \<Longrightarrow> \<not> startsWith k ''msgid:'' \<Longrightarrow> writes_to k evs = []"
  by (induction evs) (auto simp: writes_to_def split: event.splits)

lemma ctx_not_msgid: "startsWith k ''ctx:'' \<Longrightarrow> \<not> startsWith k ''msgid:''"
  by (cases k) (auto simp: startsWith_def)

lemma take_ge4:
  "take n ([a, b, c, d] @ rest) = [a, b, c, d] @ take (n - 4) rest" if "4 \<le> n"
proof -
  have "n - Suc (Suc (Suc (Suc 0))) = n - 4" by simp
  then show ?thesis
    using take_append[of n "[a, b, c, d]" rest] that by simp
qed

lemma list_all_take: "list_all P xs \<Longrightarrow> list_all P (take n xs)"
  by (induction xs arbitrary: n) (auto simp: take_Cons split: nat.splits)

lemma small_cases: "(n::nat) = 0 \<or> n = 1 \<or> n = 2 \<or> n = 3 \<or> 4 \<le> n"
  by arith

section \<open>The placeholder is linked after its context is stored\<close>

text \<open>
  C4. When the placeholder message is sent, \<open>doOpenAI\<close> first stores the model and the
  turns so far under the context id, then links the placeholder's message id to the
  context id, and only then calls the completion provider: these are the first four
  events of the update, in this order. The store of every prefix of the update's events
  (the store a crash at that point leaves) that resolves the placeholder to the context id
  holds the stored context under it, whatever the provider and the delivery do
  afterwards. The store did not link the placeholder to this context id beforehand.
\<close>

theorem placeholder_linked_before_provider:
  assumes ph: "telegram env (trace w) (placeholder_request usermsg m) = Inr respmsg"
    and fresh: "redis w (getMessageId respmsg) \<noteq> Some context_id"
    and cid: "startsWith context_id ''ctx:''"
    and run: "doOpenAI env usermsg m messages context_id w = (w', res)"
  shows "\<exists>r rest.
           trace w' = trace w @ [Telegram (placeholder_request usermsg m) (Inr respmsg),
                                 Redis_set context_id (JSON_stringify \<lparr>params = messages, model = m\<rparr>),
                                 Redis_set (getMessageId respmsg) context_id,
                                 Completions_create m messages r] @ rest
           \<and> redis w' = replay (drop (length (trace w)) (trace w')) (redis w)
           \<and> (\<forall>n. replay (take n (drop (length (trace w)) (trace w'))) (redis w) (getMessageId respmsg)
                     = Some context_id
                 \<longrightarrow> replay (take n (drop (length (trace w)) (trace w'))) (redis w) context_id
                     = Some (JSON_stringify \<lparr>params = messages, model = m\<rparr>))"
proof -
  define ctx where "ctx = JSON_stringify \<lparr>params = messages, model = m\<rparr>"
  define mid where "mid = getMessageId respmsg"
  define ph_ev where "ph_ev = Telegram (placeholder_request usermsg m) (Inr respmsg)"
  from doOpenAI_shape[OF ph run] obtain r rest where
    t: "trace w' = trace w @ [ph_ev, Redis_set context_id ctx, Redis_set mid context_id,
                              Completions_create m messages r] @ rest"
    and l: "list_all (link_event context_id) rest"
    and s: "redis w' = replay rest ((redis w)(context_id \<mapsto> ctx, mid \<mapsto> context_id))"
    unfolding ctx_def mid_def ph_ev_def by blast
  define evs where "evs = [ph_ev, Redis_set context_id ctx, Redis_set mid context_id,
                              Completions_create m messages r] @ rest"
  have d: "drop (length (trace w)) (trace w') = evs"
    by (simp add: t evs_def)
  have nm: "\<not> startsWith context_id ''msgid:''"
    using cid by (rule ctx_not_msgid)
  have neq: "mid \<noteq> context_id"
    using nm startsWith_getMessageId[of respmsg] by (auto simp: mid_def)
  have whole: "redis w' = replay evs (redis w)"
    by (simp add: s evs_def replay_Cons replay_Nil apply_event_def ph_ev_def)
  have prefix: "replay (take n evs) (redis w) context_id = Some ctx"
    if "replay (take n evs) (redis w) mid = Some context_id" for n
  proof -
    consider "n = 0" | "n = 1" | "n = 2" | "n = 3" | "4 \<le> n"
      using small_cases[of n] by blast
    then show ?thesis
    proof cases
      case 1
      with that fresh show ?thesis by (simp add: replay_Nil mid_def)
    next
      case 2
      with that fresh show ?thesis
        by (simp add: evs_def replay_Cons replay_Nil apply_event_def ph_ev_def mid_def)
    next
      case 3
      then show ?thesis
        by (simp add: evs_def replay_Cons replay_Nil apply_event_def ph_ev_def numeral_2_eq_2)
    next
      case 4
      then show ?thesis using neq
        by (simp add: evs_def replay_Cons replay_Nil apply_event_def ph_ev_def numeral_3_eq_3)
    next
      case 5
      have "take n evs = [ph_ev, Redis_set context_id ctx, Redis_set mid context_id,
                              Completions_create m messages r] @ take (n - 4) rest"
        unfolding evs_def using 5 by (rule take_ge4)
      then have "replay (take n evs) (redis w) context_id
          = replay (take (n - 4) rest) ((redis w)(context_id \<mapsto> ctx, mid \<mapsto> context_id)) context_id"
        by (simp add: replay_Cons replay_Nil apply_event_def ph_ev_def)
      also have "\<dots> = ((redis w)(context_id \<mapsto> ctx, mid \<mapsto> context_id)) context_id"
        using list_all_take[OF l] nm by (rule replay_links_other)
      finally show ?thesis using neq by simp
    qed
  qed
  show ?thesis
    unfolding d using t whole prefix
    unfolding ctx_def mid_def ph_ev_def evs_def by blast
qed

lemma getMessageId_56: "getMessageId (Message 100 56 a b c) = ''msgid:100-56''"
  by (simp add: getMessageId_def show_int_def show_nat.simps digit_def)

theorem placeholder_linked_before_provider_witness:
  "\<exists>w' res r rest.
     doOpenAI sample_env hello_command ''gpt-4-turbo-preview'' (params hello_context) ''ctx:100-55''
       empty_world = (w', res)
     \<and> trace w' = [Telegram (placeholder_request hello_command ''gpt-4-turbo-preview'')
                      (Inr (Message 100 56 (Some 7) (Some (waiting_text ''gpt-4-turbo-preview'')) None)),
                    Redis_set ''ctx:100-55'' (JSON_stringify hello_context),
                    Redis_set ''msgid:100-56'' ''ctx:100-55'',
                    Completions_create ''gpt-4-turbo-preview'' (params hello_context) r] @ rest
     \<and> redis w' ''msgid:100-56'' = Some ''ctx:100-55''
     \<and> redis w' ''ctx:100-55'' = Some (JSON_stringify hello_context)"
proof -
  define respmsg where
    "respmsg = Message 100 56 (Some 7) (Some (waiting_text ''gpt-4-turbo-preview'')) None"
  obtain w' res where run:
    "doOpenAI sample_env hello_command ''gpt-4-turbo-preview'' (params hello_context) ''ctx:100-55''
       empty_world = (w', res)"
    by (cases "doOpenAI sample_env hello_command ''gpt-4-turbo-preview'' (params hello_context)
                 ''ctx:100-55'' empty_world")
  have ph: "telegram sample_env (trace empty_world)
              (placeholder_request hello_command ''gpt-4-turbo-preview'') = Inr respmsg"
    by (simp add: sample_env_def sample_telegram_def empty_world_def placeholder_request_def
          hello_command_def respmsg_def)
  have fresh: "redis empty_world (getMessageId respmsg) \<noteq> Some ''ctx:100-55''"
    by (simp add: empty_world_def)
  have cid: "startsWith ''ctx:100-55'' ''ctx:''"
    by (simp add: startsWith_def)
  have ctx: "\<lparr>params = params hello_context, model = ''gpt-4-turbo-preview''\<rparr> = hello_context"
    by (simp add: hello_context_def)
  from placeholder_linked_before_provider[OF ph fresh cid run]
  obtain r rest where
    t: "trace w' = [Telegram (placeholder_request hello_command ''gpt-4-turbo-preview'') (Inr respmsg),
                    Redis_set ''ctx:100-55'' (JSON_stringify hello_context),
                    Redis_set ''msgid:100-56'' ''ctx:100-55'',
                    Completions_create ''gpt-4-turbo-preview'' (params hello_context) r] @ rest"
    and s: "redis w' = replay (trace w') (redis empty_world)"
    and p: "\<And>n. replay (take n (trace w')) (redis empty_world) ''msgid:100-56'' = Some ''ctx:100-55''
                 \<Longrightarrow> replay (take n (trace w')) (redis empty_world) ''ctx:100-55''
                     = Some (JSON_stringify hello_context)"
    unfolding ctx by (auto simp: empty_world_def respmsg_def getMessageId_56)
  have l: "list_all (link_event ''ctx:100-55'') rest"
    using doOpenAI_shape[OF ph run] t by (auto simp: empty_world_def)
  have link: "redis w' ''msgid:100-56'' = Some ''ctx:100-55''"
    unfolding s t using replay_links_kept[OF l]
    by (simp add: replay_Cons replay_Nil apply_event_def empty_world_def)
  have "replay (take (length (trace w')) (trace w')) (redis empty_world) ''ctx:100-55''
          = Some (JSON_stringify hello_context)"
    by (rule p) (simp add: s[symmetric] link)
  then have "redis w' ''ctx:100-55'' = Some (JSON_stringify hello_context)"
    by (simp add: s[symmetric])
  with run t link show ?thesis
    unfolding respmsg_def by blast
qed

section \<open>A new conversation\<close>

lemma match_hello: "match_MSG_REGEX ''/openai hello'' = Some [Some ''/openai hello'', Some [], None, Some ''hello'']"
  by (simp add: match_MSG_REGEX_def match_here_def match_bot_def match_payload_def startsWith_def bot_name_def)

lemma show_int_100: "show_int 100 = ''100''"
  by (simp add: show_int_def show_nat.simps digit_def)

lemma show_int_55: "show_int 55 = ''55''"
  by (simp add: show_int_def show_nat.simps digit_def)

lemma show_int_56: "show_int 56 = ''56''"
  by (simp add: show_int_def show_nat.simps digit_def)

lemma split_parts_short:
  "T \<noteq> [] \<Longrightarrow> length T \<le> PART_SIZE \<Longrightarrow> split_parts T 0 [] = [T]"
  using split_parts_step[of 0 T] by (simp add: split_parts_done)

lemma on_message_command:
  assumes "chat_id usermsg \<in> set (whitelist state)"
    and "msg_text usermsg = Some t" and "t \<noteq> []"
    and "match_MSG_REGEX t = Some [g0, g1, g2, Some p]"
  shows "on_message env state botID usermsg =
         doOpenAI env usermsg (if g1 = Some ''3'' then ''gpt-3.5-turbo'' else app_model state)
           [system_primer, \<lparr>role = User, content = p\<rparr>]
           (''ctx:'' @ show_int (chat_id usermsg) @ ''-'' @ show_int (message_id usermsg))"
  using assms by (simp add: on_message_def Let_def array_at_def)

lemma hello_is_command:
  "on_message env sample_state botID hello_command =
     doOpenAI env hello_command ''gpt-4-turbo-preview'' (params hello_context) ''ctx:100-55''"
  by (subst on_message_command[OF _ _ _ match_hello])
     (simp_all add: sample_state_def hello_command_def hello_context_def show_int_100 show_int_55)

lemma hello_run:
  "on_message sample_env sample_state 7 hello_command empty_world =
     (\<lparr>redis = [''ctx:100-55'' \<mapsto> JSON_stringify hello_context, ''msgid:100-56'' \<mapsto> ''ctx:100-55''],
       trace = [Telegram (placeholder_request hello_command ''gpt-4-turbo-preview'') (Inr sample_placeholder),
                Redis_set ''ctx:100-55'' (JSON_stringify hello_context),
                Redis_set ''msgid:100-56'' ''ctx:100-55'',
                Completions_create ''gpt-4-turbo-preview'' (params hello_context) (Inr (Some hi_there)),
                Telegram (EditMessageText (CHR 0x0A # ''hi there'') 100 56 (Some Markdown))
                  (Inr (Message 100 56 (Some 7) (Some (CHR 0x0A # ''hi there'')) None))]\<rparr>,
      Inr ())"
proof -
  have ph: "telegram sample_env (trace empty_world)
              (placeholder_request hello_command ''gpt-4-turbo-preview'') = Inr sample_placeholder"
    by (simp add: sample_env_def sample_telegram_def empty_world_def placeholder_request_def
          hello_command_def sample_placeholder_def)
  have mid: "getMessageId sample_placeholder = ''msgid:100-56''"
    by (simp add: sample_placeholder_def getMessageId_56)
  have reply: "reduce_choices (Some hi_there) = Some (CHR 0x0A # ''hi there'')"
    by (simp add: reduce_choices_def hi_there_def template_content_def newline_def)
  have parts: "split_parts (CHR 0x0A # ''hi there'') 0 [] = [CHR 0x0A # ''hi there'']"
    by (rule split_parts_short) (simp_all add: PART_SIZE_def)
  have ctx: "\<lparr>params = params hello_context, model = ''gpt-4-turbo-preview''\<rparr> = hello_context"
    by (simp add: hello_context_def)
  have "doOpenAI_try sample_env hello_command ''gpt-4-turbo-preview'' (params hello_context)
          ''ctx:100-55'' empty_world =
        (\<lparr>redis = [''ctx:100-55'' \<mapsto> JSON_stringify hello_context, ''msgid:100-56'' \<mapsto> ''ctx:100-55''],
       trace = [Telegram (placeholder_request hello_command ''gpt-4-turbo-preview'') (Inr sample_placeholder),
                Redis_set ''ctx:100-55'' (JSON_stringify hello_context),
                Redis_set ''msgid:100-56'' ''ctx:100-55'',
                Completions_create ''gpt-4-turbo-preview'' (params hello_context) (Inr (Some hi_there)),
                Telegram (EditMessageText (CHR 0x0A # ''hi there'') 100 56 (Some Markdown))
                  (Inr (Message 100 56 (Some 7) (Some (CHR 0x0A # ''hi there'')) None))]\<rparr>,
      Inr ())"
    unfolding doOpenAI_try_started[OF ph] mid ctx
    by (simp add: Let_def sample_env_def hi_there_def[symmetric] reply doWriteReply_def parts
          empty_world_def bind_def try_catch_def return_def editMessageText_def call_telegram_def
          sample_telegram_def sample_placeholder_def)
  then show ?thesis
    by (simp add: hello_is_command doOpenAI_catch)
qed

text \<open>
  C9. For the command message of chat 100 with message id 55 and text \<open>/openai hello\<close>,
  from a whitelisted chat and with the placeholder sent, the context id is \<open>ctx:100-55\<close>
  and the context stored under it has exactly the two turns system primer and user
  \<open>hello\<close>, with the configured model: it is the first write of the update, nothing
  later writes that key, and it is what the store holds when the update ends.
\<close>

theorem new_conversation_context:
  assumes chat: "chat_id usermsg = 100" and msg: "message_id usermsg = 55"
    and tx: "msg_text usermsg = Some ''/openai hello''"
    and allowed: "100 \<in> set (whitelist state)"
    and ph: "telegram env (trace w) (placeholder_request usermsg (app_model state)) = Inr respmsg"
    and run: "on_message env state botID usermsg w = (w', res)"
  shows "\<exists>r rest.
           trace w' = trace w @
             [Telegram (placeholder_request usermsg (app_model state)) (Inr respmsg),
              Redis_set ''ctx:100-55''
                (JSON_stringify \<lparr>params = [system_primer, \<lparr>role = User, content = ''hello''\<rparr>],
                                 model = app_model state\<rparr>),
              Redis_set (getMessageId respmsg) ''ctx:100-55'',
              Completions_create (app_model state)
                [system_primer, \<lparr>role = User, content = ''hello''\<rparr>] r] @ rest
           \<and> writes_to ''ctx:100-55'' rest = []
           \<and> redis w' ''ctx:100-55'' =
               Some (JSON_stringify \<lparr>params = [system_primer, \<lparr>role = User, content = ''hello''\<rparr>],
                                     model = app_model state\<rparr>)"
proof -
  let ?msgs = "[system_primer, \<lparr>role = User, content = ''hello''\<rparr>]"
  let ?ctx = "JSON_stringify \<lparr>params = ?msgs, model = app_model state\<rparr>"
  have "on_message env state botID usermsg =
        doOpenAI env usermsg (app_model state) ?msgs ''ctx:100-55''"
    by (subst on_message_command[OF _ tx _ match_hello])
       (simp_all add: chat msg allowed show_int_100 show_int_55)
  with run have run': "doOpenAI env usermsg (app_model state) ?msgs ''ctx:100-55'' w = (w', res)"
    by simp
  have nm: "\<not> startsWith ''ctx:100-55'' ''msgid:''"
    by (simp add: startsWith_def)
  from doOpenAI_shape[OF ph run'] obtain r rest where
    t: "trace w' = trace w @
             [Telegram (placeholder_request usermsg (app_model state)) (Inr respmsg),
              Redis_set ''ctx:100-55'' ?ctx,
              Redis_set (getMessageId respmsg) ''ctx:100-55'',
              Completions_create (app_model state) ?msgs r] @ rest"
    and l: "list_all (link_event ''ctx:100-55'') rest"
    and s: "redis w' = replay rest ((redis w)(''ctx:100-55'' \<mapsto> ?ctx, getMessageId respmsg \<mapsto> ''ctx:100-55''))"
    by blast
  have neq: "getMessageId respmsg \<noteq> ''ctx:100-55''"
    using nm startsWith_getMessageId[of respmsg] by auto
  have "redis w' ''ctx:100-55'' = Some ?ctx"
    unfolding s using replay_links_other[OF l nm] neq by simp
  with t writes_to_links[OF l nm] show ?thesis by blast
qed

theorem new_conversation_context_witness:
  "trace (fst (on_message sample_env sample_state 7 hello_command empty_world)) =
     [Telegram (placeholder_request hello_command ''gpt-4-turbo-preview'') (Inr sample_placeholder),
      Redis_set ''ctx:100-55'' (JSON_stringify hello_context),
      Redis_set ''msgid:100-56'' ''ctx:100-55'',
      Completions_create ''gpt-4-turbo-preview'' (params hello_context) (Inr (Some hi_there)),
      Telegram (EditMessageText (CHR 0x0A # ''hi there'') 100 56 (Some Markdown))
        (Inr (Message 100 56 (Some 7) (Some (CHR 0x0A # ''hi there'')) None))]
   \<and> redis (fst (on_message sample_env sample_state 7 hello_command empty_world)) ''ctx:100-55''
       = Some (JSON_stringify hello_context)
   \<and> params hello_context = [system_primer, \<lparr>role = User, content = ''hello''\<rparr>]"
proof -
  have ph: "telegram sample_env (trace empty_world)
              (placeholder_request hello_command (app_model sample_state)) = Inr sample_placeholder"
    by (simp add: sample_env_def sample_telegram_def empty_world_def placeholder_request_def
          hello_command_def sample_placeholder_def sample_state_def)
  have c: "chat_id hello_command = 100" and m: "message_id hello_command = 55"
    and t: "msg_text hello_command = Some ''/openai hello''"
    by (simp_all add: hello_command_def)
  have a: "100 \<in> set (whitelist sample_state)"
    by (simp add: sample_state_def)
  from new_conversation_context[OF c m t a ph surjective_pairing, of 7]
  have "redis (fst (on_message sample_env sample_state 7 hello_command empty_world)) ''ctx:100-55''
       = Some (JSON_stringify \<lparr>params = [system_primer, \<lparr>role = User, content = ''hello''\<rparr>],
                                     model = app_model sample_state\<rparr>)"
    by blast
  then have "redis (fst (on_message sample_env sample_state 7 hello_command empty_world)) ''ctx:100-55''
       = Some (JSON_stringify hello_context)"
    by (simp only: hello_context_def sample_state_def AppState.simps)
  then show ?thesis
    by (simp add: hello_run hello_context_def)
qed

section \<open>The stored context after a delivery\<close>

text \<open>The sample command is answered and the answer is delivered, yet the context stored
  under \<open>ctx:100-55\<close> was written once, before the provider call, and its last turn is
  the user's: no assistant turn is stored.\<close>

theorem context_after_delivery_counterexample:
  "snd (on_message sample_env sample_state 7 hello_command empty_world) = Inr ()
   \<and> last (trace (fst (on_message sample_env sample_state 7 hello_command empty_world))) =
       Telegram (EditMessageText (CHR 0x0A # ''hi there'') 100 56 (Some Markdown))
         (Inr (Message 100 56 (Some 7) (Some (CHR 0x0A # ''hi there'')) None))
   \<and> redis (fst (on_message sample_env sample_state 7 hello_command empty_world)) ''ctx:100-55''
       = Some (JSON_stringify hello_context)
   \<and> writes_to ''ctx:100-55'' (trace (fst (on_message sample_env sample_state 7 hello_command empty_world)))
       = [JSON_stringify hello_context]
   \<and> last (params hello_context) = \<lparr>role = User, content = ''hello''\<rparr>
   \<and> role (last (params hello_context)) \<noteq> Assistant"
  by (simp add: hello_run hello_context_def writes_to_def)

text \<open>
  C1, as the code has it. When the placeholder is sent, \<open>doOpenAI\<close> writes the context
  once, with the model and the turns it was given, before it calls the provider; whatever
  the provider answers and however the delivery goes, that is the context the store
  holds under the context id when the update ends. The assistant's turn is not stored.
\<close>

theorem context_after_delivery:
  assumes ph: "telegram env (trace w) (placeholder_request usermsg m) = Inr respmsg"
    and cid: "startsWith context_id ''ctx:''"
    and run: "doOpenAI env usermsg m messages context_id w = (w', res)"
  shows "redis w' context_id = Some (JSON_stringify \<lparr>params = messages, model = m\<rparr>)
         \<and> writes_to context_id (drop (length (trace w)) (trace w'))
             = [JSON_stringify \<lparr>params = messages, model = m\<rparr>]"
proof -
  let ?ctx = "JSON_stringify \<lparr>params = messages, model = m\<rparr>"
  have nm: "\<not> startsWith context_id ''msgid:''"
    using cid by (rule ctx_not_msgid)
  from doOpenAI_shape[OF ph run] obtain r rest where
    t: "trace w' = trace w @
             [Telegram (placeholder_request usermsg m) (Inr respmsg),
              Redis_set context_id ?ctx,
              Redis_set (getMessageId respmsg) context_id,
              Completions_create m messages r] @ rest"
    and l: "list_all (link_event context_id) rest"
    and s: "redis w' = replay rest ((redis w)(context_id \<mapsto> ?ctx, getMessageId respmsg \<mapsto> context_id))"
    by blast
  have neq: "getMessageId respmsg \<noteq> context_id"
    using nm startsWith_getMessageId[of respmsg] by auto
  have 1: "redis w' context_id = Some ?ctx"
    unfolding s using replay_links_other[OF l nm] neq by simp
  have "writes_to context_id (drop (length (trace w)) (trace w')) = [?ctx] @ writes_to context_id rest"
    using neq by (simp add: t writes_to_def)
  with 1 writes_to_links[OF l nm] show ?thesis by simp
qed

theorem context_after_delivery_witness:
  "redis (fst (doOpenAI sample_env hello_command ''gpt-4-turbo-preview'' (params hello_context)
                 ''ctx:100-55'' empty_world)) ''ctx:100-55''
     = Some (JSON_stringify hello_context)
   \<and> writes_to ''ctx:100-55''
        (trace (fst (doOpenAI sample_env hello_command ''gpt-4-turbo-preview'' (params hello_context)
                 ''ctx:100-55'' empty_world)))
     = [JSON_stringify hello_context]"
proof -
  have ph: "telegram sample_env (trace empty_world)
              (placeholder_request hello_command ''gpt-4-turbo-preview'') = Inr sample_placeholder"
    by (simp add: sample_env_def sample_telegram_def empty_world_def placeholder_request_def
          hello_command_def sample_placeholder_def)
  have cid: "startsWith ''ctx:100-55'' ''ctx:''"
    by (simp add: startsWith_def)
  have ctx: "\<lparr>params = params hello_context, model = ''gpt-4-turbo-preview''\<rparr> = hello_context"
    by (simp add: hello_context_def)
  show ?thesis
    using context_after_delivery[OF ph cid surjective_pairing, of "params hello_context"]
    by (simp add: ctx empty_world_def)
qed

section \<open>A continuation without a context\<close>

lemma send_no_context_eq:
  "send_no_context env usermsg w =
     (w\<lparr>trace := trace w @ [Telegram (no_context_request usermsg)
                                (telegram env (trace w) (no_context_request usermsg))]\<rparr>,
      case telegram env (trace w) (no_context_request usermsg) of
        Inl e \<Rightarrow> Inl e
      | Inr _ \<Rightarrow> Inr ())"
  by (simp add: send_no_context_def bind_def sendMessage_def call_telegram_def Let_def
        no_context_request_def return_def split: sum.splits)

lemma reply_handler_unlinked:
  "reply_to_message usermsg = Some replied \<Longrightarrow> redis w (getMessageId replied) = None \<Longrightarrow>
   reply_handler env usermsg w = send_no_context env usermsg w"
  by (simp add: reply_handler_def bind_def redis_get_def)

lemma reply_handler_empty_link:
  "reply_to_message usermsg = Some replied \<Longrightarrow> redis w (getMessageId replied) = Some [] \<Longrightarrow>
   reply_handler env usermsg w = send_no_context env usermsg w"
  by (simp add: reply_handler_def bind_def redis_get_def)

lemma reply_handler_not_loaded:
  "reply_to_message usermsg = Some replied \<Longrightarrow> redis w (getMessageId replied) = Some cid \<Longrightarrow>
   cid \<noteq> [] \<Longrightarrow> load_context env (redis w cid) = Falsy \<Longrightarrow>
   reply_handler env usermsg w = send_no_context env usermsg w"
  by (simp add: reply_handler_def bind_def redis_get_def)

lemma load_context_Falsy:
  "redis w cid = None \<or> redis w cid = Some []
     \<or> (\<exists>d. redis w cid = Some d
          \<and> (JSON_parse env d = SyntaxError \<or> JSON_parse env d = Falsy))
   \<Longrightarrow> load_context env (redis w cid) = Falsy"
  by (auto simp: load_context_def)

text \<open>For a reply to a message, when the store has no link for the replied-to message (or
  an empty one), or the linked context id has no value, an empty value, or a value on
  which \<open>JSON.parse\<close> throws or that parses to a falsy value, \<open>reply_handler\<close> makes exactly
  one call, the send of the no-context notice as a reply to the user's message: the store
  is unchanged and no provider call is made.\<close>

lemma reply_handler_lost:
  assumes replied: "reply_to_message usermsg = Some replied"
    and lost: "redis w (getMessageId replied) = None
             \<or> redis w (getMessageId replied) = Some []
             \<or> (\<exists>cid. redis w (getMessageId replied) = Some cid
                  \<and> (redis w cid = None \<or> redis w cid = Some []
                       \<or> (\<exists>d. redis w cid = Some d
                            \<and> (JSON_parse env d = SyntaxError \<or> JSON_parse env d = Falsy))))"
  shows "reply_handler env usermsg w =
           (w\<lparr>trace := trace w @ [Telegram (no_context_request usermsg)
                                      (telegram env (trace w) (no_context_request usermsg))]\<rparr>,
            case telegram env (trace w) (no_context_request usermsg) of
              Inl e \<Rightarrow> Inl e
            | Inr _ \<Rightarrow> Inr ())"
proof -
  have "reply_handler env usermsg w = send_no_context env usermsg w"
  proof (cases "redis w (getMessageId replied)")
    case None
    with replied show ?thesis by (rule reply_handler_unlinked)
  next
    case (Some cid)
    show ?thesis
    proof (cases "cid = []")
      case True
      with replied Some show ?thesis by (simp add: reply_handler_empty_link)
    next
      case False
      from lost have "redis w cid = None \<or> redis w cid = Some []
        \<or> (\<exists>d. redis w cid = Some d
             \<and> (JSON_parse env d = SyntaxError \<or> JSON_parse env d = Falsy))"
        unfolding Some using False by simp
      then have "load_context env (redis w cid) = Falsy"
        by (rule load_context_Falsy)
      with replied Some False show ?thesis by (rule reply_handler_not_loaded)
    qed
  qed
  then show ?thesis
    by (simp only: send_no_context_eq)
qed

lemma reply_handler_lost_example:
  "reply_handler sample_env more_reply corrupt_world =
     (corrupt_world\<lparr>trace := [Telegram (no_context_request more_reply)
                                 (Inr (Message 100 56 (Some 7) (Some no_context_notice) None))]\<rparr>,
      Inr ())
   \<and> redis (fst (reply_handler sample_env more_reply corrupt_world)) = redis corrupt_world"
proof -
  have r: "reply_to_message more_reply = Some sample_placeholder"
    by (simp add: more_reply_def)
  have p: "JSON_parse sample_env ''{oops'' = SyntaxError"
    by (simp add: sample_env_def parse_context_def parse_literal_def parse_object_def expect_def
          QuoteJSONString_def dq_def)
  have l: "redis corrupt_world (getMessageId sample_placeholder) = Some ''ctx:100-55''"
    "redis corrupt_world ''ctx:100-55'' = Some ''{oops''"
    by (simp_all add: corrupt_world_def sample_placeholder_def getMessageId_56)
  have "reply_handler sample_env more_reply corrupt_world =
           (corrupt_world\<lparr>trace := trace corrupt_world @ [Telegram (no_context_request more_reply)
                (telegram sample_env (trace corrupt_world) (no_context_request more_reply))]\<rparr>,
            case telegram sample_env (trace corrupt_world) (no_context_request more_reply) of
              Inl e \<Rightarrow> Inl e
            | Inr _ \<Rightarrow> Inr ())"
    by (rule reply_handler_lost[OF r]) (simp add: l p)
  then show ?thesis
    by (simp add: corrupt_world_def sample_env_def sample_telegram_def no_context_request_def
          more_reply_def)
qed

text \<open>A stored value that parses to a truthy value without \<open>params\<close> passes the test of
  \<open>!context\<close>; for a text message the push onto \<open>context.params\<close> then throws, before any
  call is made.\<close>

lemma reply_handler_not_context:
  "reply_to_message usermsg = Some replied \<Longrightarrow> redis w (getMessageId replied) = Some cid \<Longrightarrow>
   cid \<noteq> [] \<Longrightarrow> redis w cid = Some d \<Longrightarrow> d \<noteq> [] \<Longrightarrow> JSON_parse env d = NotContext \<Longrightarrow>
   msg_text usermsg = Some t \<Longrightarrow>
   reply_handler env usermsg w =
     (w, Inl (TypeError ''Cannot read properties of undefined (reading 'push')''))"
  by (simp add: reply_handler_def bind_def redis_get_def load_context_def throw_def)

lemma match_more: "match_MSG_REGEX ''tell me more'' = None"
  by (simp add: match_MSG_REGEX_def match_here_def startsWith_def line_terminator_def)

lemma more_is_reply:
  "on_message sample_env sample_state 7 more_reply w = reply_handler sample_env more_reply w"
  by (simp add: on_message_def Let_def more_reply_def sample_state_def match_more startsWith_def
        sample_placeholder_def)

text \<open>
  C6. A reply to a bot message whose stored context is unreadable is to end with the
  no-context notice, and the unreadable value is never to cause a thrown fault that
  leaves the handler. The code does not do so at this input: the placeholder of the
  sample conversation is linked to \<^verbatim>\<open>ctx:100-55\<close>, the value stored there is the text \<^verbatim>\<open>{}\<close>,
  and the user replies to the placeholder with \<^verbatim>\<open>tell me more\<close>. \<open>JSON.parse\<close> does not
  throw on \<^verbatim>\<open>{}\<close> and its value is truthy, so neither the \<open>catch\<close> around the parse nor the
  test of \<open>!context\<close> stops the handler; \<open>context.params.push\<close> throws a \<open>TypeError\<close>, which
  leaves \<open>reply_handler\<close> and the handler of the update. No call to the transport is made:
  the user receives no notice.
\<close>

theorem shapeless_context_throws:
  "JSON_parse sample_env ''{}'' = NotContext
   \<and> on_message sample_env sample_state 7 more_reply shapeless_world =
       (shapeless_world,
        Inl (TypeError ''Cannot read properties of undefined (reading 'push')''))
   \<and> trace shapeless_world = []"
proof -
  have p: "JSON_parse sample_env ''{}'' = NotContext"
    by (simp add: sample_env_def parse_context_def parse_literal_def dq_def)
  have r: "reply_to_message more_reply = Some sample_placeholder"
    and t: "msg_text more_reply = Some ''tell me more''"
    by (simp_all add: more_reply_def)
  have l: "redis shapeless_world (getMessageId sample_placeholder) = Some ''ctx:100-55''"
    and v: "redis shapeless_world ''ctx:100-55'' = Some ''{}''"
    by (simp_all add: shapeless_world_def sample_placeholder_def getMessageId_56)
  have "reply_handler sample_env more_reply shapeless_world =
          (shapeless_world,
           Inl (TypeError ''Cannot read properties of undefined (reading 'push')''))"
    using r l _ v _ p t by (rule reply_handler_not_context) simp_all
  then show ?thesis
    using p by (simp add: more_is_reply shapeless_world_def)
qed

section \<open>A reply of 5000 characters\<close>

lemma write_parts_first:
  "write_parts env chatid respmsg cid 0 (p # ps) prev w =
     (let q1 = EditMessageText p chatid (message_id respmsg) (Some Markdown);
          r1 = telegram env (trace w) q1;
          w1 = w\<lparr>trace := trace w @ [Telegram q1 r1]\<rparr>
      in case r1 of
           Inr _ \<Rightarrow> write_parts env chatid respmsg cid 1 ps prev w1
         | Inl e \<Rightarrow>
             (let q2 = EditMessageText p chatid (message_id respmsg) None;
                  r2 = telegram env (trace w1) q2;
                  w2 = w1\<lparr>trace := trace w1 @ [Telegram q2 r2]\<rparr>
              in case r2 of
                   Inl e2 \<Rightarrow> (w2, Inl e2)
                 | Inr _ \<Rightarrow>
                     (let q3 = SendMessage chatid (fallback_notice e) None None;
                          r3 = telegram env (trace w2) q3;
                          w3 = w2\<lparr>trace := trace w2 @ [Telegram q3 r3]\<rparr>
                      in case r3 of
                           Inl e3 \<Rightarrow> (w3, Inl e3)
                         | Inr _ \<Rightarrow> write_parts env chatid respmsg cid 1 ps prev w3)))"
  by (simp add: bind_def try_catch_def return_def editMessageText_def sendMessage_def
        call_telegram_def Let_def split: sum.splits)

lemma write_parts_next:
  "0 < i \<Longrightarrow>
   write_parts env chatid respmsg cid i (p # ps) prev w =
     (let q1 = SendMessage chatid p (Some (message_id prev)) (Some Markdown);
          r1 = telegram env (trace w) q1;
          w1 = w\<lparr>trace := trace w @ [Telegram q1 r1]\<rparr>
      in case r1 of
           Inr m \<Rightarrow>
             write_parts env chatid respmsg cid (i + 1) ps m
               (w1\<lparr>redis := (redis w1)(getMessageId m \<mapsto> cid),
                   trace := trace w1 @ [Redis_set (getMessageId m) cid]\<rparr>)
         | Inl e \<Rightarrow>
             (let q2 = SendMessage chatid p (Some (message_id prev)) None;
                  r2 = telegram env (trace w1) q2;
                  w2 = w1\<lparr>trace := trace w1 @ [Telegram q2 r2]\<rparr>
              in case r2 of
                   Inl e2 \<Rightarrow> (w2, Inl e2)
                 | Inr m \<Rightarrow>
                     (let q3 = SendMessage chatid (fallback_notice e) None None;
                          r3 = telegram env (trace w2) q3;
                          w3 = w2\<lparr>trace := trace w2 @ [Telegram q3 r3]\<rparr>
                      in case r3 of
                           Inl e3 \<Rightarrow> (w3, Inl e3)
                         | Inr _ \<Rightarrow>
                             write_parts env chatid respmsg cid (i + 1) ps m
                               (w3\<lparr>redis := (redis w3)(getMessageId m \<mapsto> cid),
                                   trace := trace w3 @ [Redis_set (getMessageId m) cid]\<rparr>))))"
  by (simp add: bind_def try_catch_def return_def sendMessage_def linkMessageWithContext_def
        redis_set_def call_telegram_def Let_def split: sum.splits)

lemma write_parts_first_accepted:
  assumes "telegram env (trace w) (EditMessageText p chatid (message_id respmsg) (Some Markdown)) = Inr e0"
  shows "write_parts env chatid respmsg cid 0 (p # ps) prev w =
         write_parts env chatid respmsg cid 1 ps prev
           (w\<lparr>trace := trace w @
                [Telegram (EditMessageText p chatid (message_id respmsg) (Some Markdown)) (Inr e0)]\<rparr>)"
  by (simp only: write_parts_first Let_def assms sum.case)

lemma write_parts_next_accepted:
  assumes "0 < i"
    and "telegram env (trace w) (SendMessage chatid p (Some (message_id prev)) (Some Markdown)) = Inr m"
  shows "write_parts env chatid respmsg cid i (p # ps) prev w =
         write_parts env chatid respmsg cid (i + 1) ps m
           (w\<lparr>redis := (redis w)(getMessageId m \<mapsto> cid),
               trace := trace w @
                 [Telegram (SendMessage chatid p (Some (message_id prev)) (Some Markdown)) (Inr m),
                  Redis_set (getMessageId m) cid]\<rparr>)"
  by (subst write_parts_next[OF assms(1)]) (simp add: Let_def assms(2))

text \<open>
  C5. With a transport that accepts every request, a placeholder that was sent and a
  provider whose assembled reply has exactly 5000 characters, the reply is split into
  three fragments of 2048, 2048 and 904 characters. The update's events are, in order: the
  placeholder, the stored context, the placeholder's link, the provider call, the edit of
  the placeholder message with fragment 0, the send of fragment 1 as a reply to the
  placeholder message, the link of the message sent, the send of fragment 2 as a reply to
  the message of fragment 1, and its link. When the update ends the store resolves the
  placeholder's message and both new messages to the same context id.
\<close>

theorem long_reply_delivery:
  assumes accepts: "\<forall>tr req. \<exists>msg. telegram env tr req = Inr msg"
    and ph: "telegram env (trace w) (placeholder_request usermsg m) = Inr respmsg"
    and answer: "\<forall>tr. completions_create env tr m messages = Inr choices"
    and reply: "reduce_choices choices = Some reply"
    and len: "length reply = 5000"
    and run: "doOpenAI env usermsg m messages context_id w = (w', res)"
  shows "\<exists>e0 m1 m2.
           res = Inr ()
           \<and> split_parts reply 0 [] = [take 2048 reply, take 2048 (drop 2048 reply), drop 4096 reply]
           \<and> length (take 2048 reply) = 2048
           \<and> length (take 2048 (drop 2048 reply)) = 2048
           \<and> length (drop 4096 reply) = 904
           \<and> trace w' = trace w @
               [Telegram (placeholder_request usermsg m) (Inr respmsg),
                Redis_set context_id (JSON_stringify \<lparr>params = messages, model = m\<rparr>),
                Redis_set (getMessageId respmsg) context_id,
                Completions_create m messages (Inr choices),
                Telegram (EditMessageText (take 2048 reply) (chat_id respmsg) (message_id respmsg)
                            (Some Markdown)) (Inr e0),
                Telegram (SendMessage (chat_id respmsg) (take 2048 (drop 2048 reply))
                            (Some (message_id respmsg)) (Some Markdown)) (Inr m1),
                Redis_set (getMessageId m1) context_id,
                Telegram (SendMessage (chat_id respmsg) (drop 4096 reply)
                            (Some (message_id m1)) (Some Markdown)) (Inr m2),
                Redis_set (getMessageId m2) context_id]
           \<and> redis w' (getMessageId respmsg) = Some context_id
           \<and> redis w' (getMessageId m1) = Some context_id
           \<and> redis w' (getMessageId m2) = Some context_id"
proof -
  define ctx where "ctx = JSON_stringify \<lparr>params = messages, model = m\<rparr>"
  define f0 where "f0 = take 2048 reply"
  define f1 where "f1 = take 2048 (drop 2048 reply)"
  define f2 where "f2 = drop 4096 reply"
  define chatid where "chatid = chat_id respmsg"
  define w4 where "w4 = w\<lparr>redis := (redis w)(context_id \<mapsto> ctx, getMessageId respmsg \<mapsto> context_id),
                         trace := trace w @ [Telegram (placeholder_request usermsg m) (Inr respmsg),
                                             Redis_set context_id ctx,
                                             Redis_set (getMessageId respmsg) context_id,
                                             Completions_create m messages (Inr choices)]\<rparr>"
  have parts: "split_parts reply 0 [] = [f0, f1, f2]"
    unfolding f0_def f1_def f2_def using len by (rule split_parts_5000)
  have started: "doOpenAI_try env usermsg m messages context_id w =
                 write_parts env chatid respmsg context_id 0 [f0, f1, f2] respmsg w4"
    by (simp add: doOpenAI_try_started[OF ph] Let_def answer reply doWriteReply_def parts
          w4_def ctx_def chatid_def)
  obtain e0 where a0: "telegram env (trace w4)
      (EditMessageText f0 chatid (message_id respmsg) (Some Markdown)) = Inr e0"
    using accepts by blast
  define w5 where "w5 = w4\<lparr>trace := trace w4 @
      [Telegram (EditMessageText f0 chatid (message_id respmsg) (Some Markdown)) (Inr e0)]\<rparr>"
  obtain m1 where a1: "telegram env (trace w5)
      (SendMessage chatid f1 (Some (message_id respmsg)) (Some Markdown)) = Inr m1"
    using accepts by blast
  define w6 where "w6 = w5\<lparr>redis := (redis w5)(getMessageId m1 \<mapsto> context_id),
      trace := trace w5 @
        [Telegram (SendMessage chatid f1 (Some (message_id respmsg)) (Some Markdown)) (Inr m1),
         Redis_set (getMessageId m1) context_id]\<rparr>"
  obtain m2 where a2: "telegram env (trace w6)
      (SendMessage chatid f2 (Some (message_id m1)) (Some Markdown)) = Inr m2"
    using accepts by blast
  define w7 where "w7 = w6\<lparr>redis := (redis w6)(getMessageId m2 \<mapsto> context_id),
      trace := trace w6 @
        [Telegram (SendMessage chatid f2 (Some (message_id m1)) (Some Markdown)) (Inr m2),
         Redis_set (getMessageId m2) context_id]\<rparr>"
  have "write_parts env chatid respmsg context_id 0 [f0, f1, f2] respmsg w4
      = write_parts env chatid respmsg context_id 1 [f1, f2] respmsg w5"
    unfolding w5_def by (rule write_parts_first_accepted[OF a0])
  also have "\<dots> = write_parts env chatid respmsg context_id (1 + 1) [f2] m1 w6"
    unfolding w6_def by (rule write_parts_next_accepted[OF _ a1]) simp
  also have "\<dots> = write_parts env chatid respmsg context_id (1 + 1 + 1) [] m2 w7"
    unfolding w7_def by (rule write_parts_next_accepted[OF _ a2]) simp
  also have "\<dots> = (w7, Inr ())"
    by (simp add: return_def)
  finally have "doOpenAI_try env usermsg m messages context_id w = (w7, Inr ())"
    using started by simp
  with run have fin: "w' = w7" "res = Inr ()"
    by (simp_all add: doOpenAI_catch)
  have tr: "trace w7 = trace w @
               [Telegram (placeholder_request usermsg m) (Inr respmsg),
                Redis_set context_id ctx,
                Redis_set (getMessageId respmsg) context_id,
                Completions_create m messages (Inr choices),
                Telegram (EditMessageText f0 chatid (message_id respmsg) (Some Markdown)) (Inr e0),
                Telegram (SendMessage chatid f1 (Some (message_id respmsg)) (Some Markdown)) (Inr m1),
                Redis_set (getMessageId m1) context_id,
                Telegram (SendMessage chatid f2 (Some (message_id m1)) (Some Markdown)) (Inr m2),
                Redis_set (getMessageId m2) context_id]"
    by (simp add: w7_def w6_def w5_def w4_def)
  have st: "redis w7 = (redis w)(context_id \<mapsto> ctx, getMessageId respmsg \<mapsto> context_id,
                 getMessageId m1 \<mapsto> context_id, getMessageId m2 \<mapsto> context_id)"
    by (simp add: w7_def w6_def w5_def w4_def)
  have links: "redis w7 (getMessageId respmsg) = Some context_id"
    "redis w7 (getMessageId m1) = Some context_id"
    "redis w7 (getMessageId m2) = Some context_id"
    by (simp_all add: st)
  have lens: "length f0 = 2048" "length f1 = 2048" "length f2 = 904"
    using len by (simp_all add: f0_def f1_def f2_def)
  show ?thesis
    using fin parts lens tr links
    unfolding f0_def f1_def f2_def ctx_def chatid_def by blast
qed

theorem long_reply_delivery_witness:
  "\<exists>e0 m1 m2.
     snd (doOpenAI long_env hello_command ''gpt-4-turbo-preview'' (params hello_context)
            ''ctx:100-55'' empty_world) = Inr ()
     \<and> trace (fst (doOpenAI long_env hello_command ''gpt-4-turbo-preview'' (params hello_context)
                       ''ctx:100-55'' empty_world)) =
         [Telegram (placeholder_request hello_command ''gpt-4-turbo-preview'') (Inr sample_placeholder),
          Redis_set ''ctx:100-55'' (JSON_stringify hello_context),
          Redis_set ''msgid:100-56'' ''ctx:100-55'',
          Completions_create ''gpt-4-turbo-preview'' (params hello_context) (Inr (Some long_answer)),
          Telegram (EditMessageText (CHR 0x0A # replicate 2047 CHR ''a'') 100 56 (Some Markdown)) (Inr e0),
          Telegram (SendMessage 100 (replicate 2048 CHR ''a'') (Some 56) (Some Markdown)) (Inr m1),
          Redis_set (getMessageId m1) ''ctx:100-55'',
          Telegram (SendMessage 100 (replicate 904 CHR ''a'') (Some (message_id m1)) (Some Markdown))
            (Inr m2),
          Redis_set (getMessageId m2) ''ctx:100-55'']
     \<and> redis (fst (doOpenAI long_env hello_command ''gpt-4-turbo-preview'' (params hello_context)
                       ''ctx:100-55'' empty_world)) (getMessageId m1) = Some ''ctx:100-55''
     \<and> redis (fst (doOpenAI long_env hello_command ''gpt-4-turbo-preview'' (params hello_context)
                       ''ctx:100-55'' empty_world)) (getMessageId m2) = Some ''ctx:100-55''
     \<and> redis (fst (doOpenAI long_env hello_command ''gpt-4-turbo-preview'' (params hello_context)
                       ''ctx:100-55'' empty_world)) ''msgid:100-56'' = Some ''ctx:100-55''"
proof -
  have accepts: "\<forall>tr req. \<exists>msg. telegram long_env tr req = Inr msg"
    by (simp add: long_env_def sample_env_def sample_telegram_def split: request.splits)
  have ph: "telegram long_env (trace empty_world)
              (placeholder_request hello_command ''gpt-4-turbo-preview'') = Inr sample_placeholder"
    by (simp add: long_env_def sample_env_def sample_telegram_def empty_world_def
          placeholder_request_def hello_command_def sample_placeholder_def)
  have answer: "\<forall>tr. completions_create long_env tr ''gpt-4-turbo-preview'' (params hello_context)
                  = Inr (Some long_answer)"
    by (simp add: long_env_def)
  have reply: "reduce_choices (Some long_answer) = Some (CHR 0x0A # replicate 4999 CHR ''a'')"
    by (simp add: reduce_choices_def long_answer_def template_content_def newline_def)
  have len: "length (CHR 0x0A # replicate 4999 CHR ''a'') = 5000"
    by simp
  have ctx: "\<lparr>params = params hello_context, model = ''gpt-4-turbo-preview''\<rparr> = hello_context"
    by (simp add: hello_context_def)
  have mid: "getMessageId sample_placeholder = ''msgid:100-56''"
    by (simp add: sample_placeholder_def getMessageId_56)
  have ids: "chat_id sample_placeholder = 100" "message_id sample_placeholder = 56"
    by (simp_all add: sample_placeholder_def)
  have frags: "take 2048 (CHR 0x0A # replicate 4999 CHR ''a'') = CHR 0x0A # replicate 2047 CHR ''a''"
    "take 2048 (drop 2048 (CHR 0x0A # replicate 4999 CHR ''a'')) = replicate 2048 CHR ''a''"
    "drop 4096 (CHR 0x0A # replicate 4999 CHR ''a'') = replicate 904 CHR ''a''"
    by simp_all
  show ?thesis
    using long_reply_delivery[OF accepts ph answer reply len surjective_pairing]
    unfolding ctx mid ids frags empty_world_def world.simps append_Nil
    by blast
qed

section \<open>The plain-text fallback\<close>

lemma write_parts_first_fallback:
  assumes "telegram env (trace w) (EditMessageText p chatid (message_id respmsg) (Some Markdown)) = Inl e"
    and "telegram env
           (trace w @ [Telegram (EditMessageText p chatid (message_id respmsg) (Some Markdown)) (Inl e)])
           (EditMessageText p chatid (message_id respmsg) None) = Inr m"
    and "telegram env
           (trace w @ [Telegram (EditMessageText p chatid (message_id respmsg) (Some Markdown)) (Inl e),
                       Telegram (EditMessageText p chatid (message_id respmsg) None) (Inr m)])
           (SendMessage chatid (fallback_notice e) None None) = Inr n"
  shows "write_parts env chatid respmsg cid 0 (p # ps) prev w =
         write_parts env chatid respmsg cid 1 ps prev
           (w\<lparr>trace := trace w @
                [Telegram (EditMessageText p chatid (message_id respmsg) (Some Markdown)) (Inl e),
                 Telegram (EditMessageText p chatid (message_id respmsg) None) (Inr m),
                 Telegram (SendMessage chatid (fallback_notice e) None None) (Inr n)]\<rparr>)"
  by (subst write_parts_first) (simp add: Let_def assms)

lemma write_parts_next_fallback:
  assumes "0 < i"
    and "telegram env (trace w) (SendMessage chatid p (Some (message_id prev)) (Some Markdown)) = Inl e"
    and "telegram env
           (trace w @ [Telegram (SendMessage chatid p (Some (message_id prev)) (Some Markdown)) (Inl e)])
           (SendMessage chatid p (Some (message_id prev)) None) = Inr m"
    and "telegram env
           (trace w @ [Telegram (SendMessage chatid p (Some (message_id prev)) (Some Markdown)) (Inl e),
                       Telegram (SendMessage chatid p (Some (message_id prev)) None) (Inr m)])
           (SendMessage chatid (fallback_notice e) None None) = Inr n"
  shows "write_parts env chatid respmsg cid i (p # ps) prev w =
         write_parts env chatid respmsg cid (i + 1) ps m
           (w\<lparr>redis := (redis w)(getMessageId m \<mapsto> cid),
               trace := trace w @
                [Telegram (SendMessage chatid p (Some (message_id prev)) (Some Markdown)) (Inl e),
                 Telegram (SendMessage chatid p (Some (message_id prev)) None) (Inr m),
                 Telegram (SendMessage chatid (fallback_notice e) None None) (Inr n),
                 Redis_set (getMessageId m) cid]\<rparr>)"
  by (subst write_parts_next[OF assms(1)]) (simp add: Let_def assms)

lemma write_parts_fallback_protocol:
  assumes plain: "\<forall>tr q. request_mode q = None \<longrightarrow> (\<exists>msg. telegram env tr q = Inr msg)"
  shows "write_parts env chatid respmsg cid i parts prev w = (w', res) \<Longrightarrow>
         res = Inr () \<and> (\<exists>evs. trace w' = trace w @ evs
                           \<and> fallback_protocol parts (filter is_telegram evs))"
proof (induction parts arbitrary: i prev w)
  case Nil
  then show ?case by (simp add: return_def)
next
  case (Cons p ps)
  have step: "res = Inr () \<and> (\<exists>evs. trace w' = trace w @ evs
                           \<and> fallback_protocol (p # ps) (filter is_telegram evs))"
    if eq: "write_parts env chatid respmsg cid i (p # ps) prev w =
            write_parts env chatid respmsg cid j ps prev' w2"
      and tr: "trace w2 = trace w @ pre"
      and ok: "\<And>rest. fallback_protocol (p # ps) (filter is_telegram pre @ rest)
                 = fallback_protocol ps rest"
    for j prev' w2 pre
  proof -
    from Cons.prems eq have "write_parts env chatid respmsg cid j ps prev' w2 = (w', res)"
      by simp
    from Cons.IH[OF this] obtain evs where "res = Inr ()" "trace w' = trace w2 @ evs"
      "fallback_protocol ps (filter is_telegram evs)" by blast
    then show ?thesis
      using tr ok by (intro conjI exI[of _ "pre @ evs"]) simp_all
  qed
  show ?case
  proof (cases "i = 0")
    case True
    let ?q1 = "EditMessageText p chatid (message_id respmsg) (Some Markdown)"
    let ?q2 = "EditMessageText p chatid (message_id respmsg) None"
    show ?thesis
    proof (cases "telegram env (trace w) ?q1")
      case (Inr e0)
      let ?pre = "[Telegram ?q1 (Inr e0)]"
      have "write_parts env chatid respmsg cid i (p # ps) prev w =
            write_parts env chatid respmsg cid 1 ps prev (w\<lparr>trace := trace w @ ?pre\<rparr>)"
        unfolding True by (rule write_parts_first_accepted[OF Inr])
      from step[OF this, of ?pre] show ?thesis by simp
    next
      case (Inl e)
      obtain m where m: "telegram env (trace w @ [Telegram ?q1 (Inl e)]) ?q2 = Inr m"
        using plain by (metis request_mode.simps(2))
      let ?q3 = "SendMessage chatid (fallback_notice e) None None"
      obtain n where n: "telegram env (trace w @ [Telegram ?q1 (Inl e), Telegram ?q2 (Inr m)]) ?q3 = Inr n"
        using plain by (metis request_mode.simps(1))
      let ?pre = "[Telegram ?q1 (Inl e), Telegram ?q2 (Inr m), Telegram ?q3 (Inr n)]"
      have "write_parts env chatid respmsg cid i (p # ps) prev w =
            write_parts env chatid respmsg cid 1 ps prev (w\<lparr>trace := trace w @ ?pre\<rparr>)"
        unfolding True by (rule write_parts_first_fallback[OF Inl m n])
      from step[OF this, of ?pre] show ?thesis by simp
    qed
  next
    case False
    then have pos: "0 < i" by simp
    let ?q1 = "SendMessage chatid p (Some (message_id prev)) (Some Markdown)"
    let ?q2 = "SendMessage chatid p (Some (message_id prev)) None"
    show ?thesis
    proof (cases "telegram env (trace w) ?q1")
      case (Inr m)
      let ?pre = "[Telegram ?q1 (Inr m), Redis_set (getMessageId m) cid]"
      from step[OF write_parts_next_accepted[OF pos Inr], of ?pre] show ?thesis by simp
    next
      case (Inl e)
      obtain m where m: "telegram env (trace w @ [Telegram ?q1 (Inl e)]) ?q2 = Inr m"
        using plain by (metis request_mode.simps(1))
      let ?q3 = "SendMessage chatid (fallback_notice e) None None"
      obtain n where n: "telegram env (trace w @ [Telegram ?q1 (Inl e), Telegram ?q2 (Inr m)]) ?q3 = Inr n"
        using plain by (metis request_mode.simps(1))
      let ?pre = "[Telegram ?q1 (Inl e), Telegram ?q2 (Inr m), Telegram ?q3 (Inr n),
                   Redis_set (getMessageId m) cid]"
      from step[OF write_parts_next_fallback[OF pos Inl m n], of ?pre] show ?thesis by simp
    qed
  qed
qed

text \<open>
  C7. With a transport that accepts every request made without a rendering mode,
  \<open>doWriteReply\<close> ends normally for every reply, and the transport calls it made are, for
  the fragments in order: a request for the fragment with Markdown rendering, and, when
  that request is refused, the same request without a rendering mode followed by the
  notice of the fallback, which carries the error's message; then the calls for the
  next fragment. So a refused rendering never stops the remaining fragments.
\<close>

theorem markdown_fallback:
  assumes plain: "\<forall>tr q. request_mode q = None \<longrightarrow> (\<exists>msg. telegram env tr q = Inr msg)"
    and run: "doWriteReply env (Some reply) respmsg context_id w = (w', res)"
  shows "res = Inr ()
         \<and> fallback_protocol (split_parts reply 0 [])
             (filter is_telegram (drop (length (trace w)) (trace w')))"
proof -
  from run have "write_parts env (chat_id respmsg) respmsg context_id 0 (split_parts reply 0 [])
                   respmsg w = (w', res)"
    by (simp add: doWriteReply_def)
  from write_parts_fallback_protocol[OF plain this]
  obtain evs where "res = Inr ()" "trace w' = trace w @ evs"
    "fallback_protocol (split_parts reply 0 []) (filter is_telegram evs)"
    by blast
  then show ?thesis by simp
qed

lemma split_parts_two:
  assumes "PART_SIZE < length T" "length T \<le> 2 * PART_SIZE"
  shows "split_parts T 0 [] = [take PART_SIZE T, drop PART_SIZE T]"
proof -
  have "split_parts T 0 [] = take PART_SIZE T # split_parts T PART_SIZE []"
    using assms split_parts_step[of 0 T] by (cases T) simp_all
  also have "split_parts T PART_SIZE [] = take PART_SIZE (drop PART_SIZE T) # split_parts T (PART_SIZE + PART_SIZE) []"
    using assms by (simp add: split_parts_step)
  also have "split_parts T (PART_SIZE + PART_SIZE) [] = []"
    using assms by (simp add: split_parts_done)
  finally show ?thesis using assms by simp
qed

theorem markdown_fallback_witness:
  "snd (doWriteReply picky_env (Some star_reply) sample_placeholder ''ctx:100-55'' empty_world) = Inr ()
   \<and> split_parts star_reply 0 [] = [CHR ''*'' # replicate 2047 CHR ''a'', ''b'']
   \<and> trace (fst (doWriteReply picky_env (Some star_reply) sample_placeholder ''ctx:100-55''
                     empty_world)) =
       [Telegram (EditMessageText (CHR ''*'' # replicate 2047 CHR ''a'') 100 56 (Some Markdown))
          (Inl parse_error),
        Telegram (EditMessageText (CHR ''*'' # replicate 2047 CHR ''a'') 100 56 None)
          (Inr (Message 100 56 (Some 7) (Some (CHR ''*'' # replicate 2047 CHR ''a'')) None)),
        Telegram (SendMessage 100 (fallback_notice parse_error) None None)
          (Inr (Message 100 58 (Some 7) (Some (fallback_notice parse_error)) None)),
        Telegram (SendMessage 100 ''b'' (Some 56) (Some Markdown))
          (Inr (Message 100 59 (Some 7) (Some ''b'') None)),
        Redis_set ''msgid:100-59'' ''ctx:100-55'']"
proof -
  have plain: "\<forall>tr q. request_mode q = None \<longrightarrow> (\<exists>msg. telegram picky_env tr q = Inr msg)"
    by (simp add: picky_env_def picky_telegram_def sample_telegram_def split: request.splits)
  have res: "snd (doWriteReply picky_env (Some star_reply) sample_placeholder ''ctx:100-55''
                    empty_world) = Inr ()"
    using markdown_fallback[OF plain surjective_pairing] by blast
  have parts: "split_parts star_reply 0 [] = [CHR ''*'' # replicate 2047 CHR ''a'', ''b'']"
    using split_parts_two[of star_reply] by (simp add: star_reply_def PART_SIZE_def)
  have mid: "getMessageId (Message 100 59 a b c) = ''msgid:100-59''" for a b c
    by (simp add: getMessageId_def show_int_def show_nat.simps digit_def)
  have "fst (doWriteReply picky_env (Some star_reply) sample_placeholder ''ctx:100-55'' empty_world)
      = \<lparr>redis = [''msgid:100-59'' \<mapsto> ''ctx:100-55''],
         trace = [Telegram (EditMessageText (CHR ''*'' # replicate 2047 CHR ''a'') 100 56 (Some Markdown))
          (Inl parse_error),
        Telegram (EditMessageText (CHR ''*'' # replicate 2047 CHR ''a'') 100 56 None)
          (Inr (Message 100 56 (Some 7) (Some (CHR ''*'' # replicate 2047 CHR ''a'')) None)),
        Telegram (SendMessage 100 (fallback_notice parse_error) None None)
          (Inr (Message 100 58 (Some 7) (Some (fallback_notice parse_error)) None)),
        Telegram (SendMessage 100 ''b'' (Some 56) (Some Markdown))
          (Inr (Message 100 59 (Some 7) (Some ''b'') None)),
        Redis_set ''msgid:100-59'' ''ctx:100-55'']\<rparr>"
    unfolding doWriteReply_def option.case parts
    by (subst write_parts_first, subst write_parts_next)
       (simp_all add: Let_def picky_env_def picky_telegram_def sample_telegram_def sample_env_def
          empty_world_def sample_placeholder_def return_def mid)
  with res parts show ?thesis by simp
qed

section \<open>Which delivered messages are linked\<close>

lemma refused_run:
  "on_message refusing_env sample_state 7 hello_command empty_world = (refused_world, Inr ())"
proof -
  have ph: "telegram refusing_env (trace empty_world)
              (placeholder_request hello_command ''gpt-4-turbo-preview'') = Inr sample_placeholder"
    by (simp add: refusing_env_def refusing_telegram_def picky_telegram_def sample_telegram_def
          empty_world_def placeholder_request_def hello_command_def sample_placeholder_def
          waiting_text_def)
  have mid: "getMessageId sample_placeholder = ''msgid:100-56''"
    by (simp add: sample_placeholder_def getMessageId_56)
  have reply: "reduce_choices (Some star_answer) = Some (CHR 0x0A # replicate 2047 CHR ''a'' @ ''*b'')"
    by (simp add: reduce_choices_def star_answer_def template_content_def newline_def)
  have parts: "split_parts (CHR 0x0A # replicate 2047 CHR ''a'' @ ''*b'') 0 []
                 = [CHR 0x0A # replicate 2047 CHR ''a'', ''*b'']"
    using split_parts_two[of "CHR 0x0A # replicate 2047 CHR ''a'' @ ''*b''"]
    by (simp add: PART_SIZE_def)
  have ctx: "\<lparr>params = params hello_context, model = ''gpt-4-turbo-preview''\<rparr> = hello_context"
    by (simp add: hello_context_def)
  define w4 where "w4 = \<lparr>redis = [''ctx:100-55'' \<mapsto> JSON_stringify hello_context,
                               ''msgid:100-56'' \<mapsto> ''ctx:100-55''],
                      trace = take 4 (trace refused_world)\<rparr>"
  have wp: "write_parts refusing_env 100 sample_placeholder ''ctx:100-55'' 0
              [CHR 0x0A # replicate 2047 CHR ''a'', ''*b''] sample_placeholder w4 =
            (refused_world\<lparr>trace := butlast (trace refused_world)\<rparr>,
             Inl (TransportError ''Too Many Requests''))"
    by (subst write_parts_first, subst write_parts_next)
       (simp_all add: Let_def refusing_env_def refusing_telegram_def picky_telegram_def
          sample_telegram_def sample_env_def sample_placeholder_def parse_error_def
          fallback_notice_def refused_world_def w4_def)
  have "doOpenAI_try refusing_env hello_command ''gpt-4-turbo-preview'' (params hello_context)
          ''ctx:100-55'' empty_world =
        write_parts refusing_env 100 sample_placeholder ''ctx:100-55'' 0
              [CHR 0x0A # replicate 2047 CHR ''a'', ''*b''] sample_placeholder w4"
    unfolding doOpenAI_try_started[OF ph] mid ctx
    by (simp add: Let_def refusing_env_def star_answer_def[symmetric] reply doWriteReply_def parts
          empty_world_def w4_def refused_world_def sample_placeholder_def
          del: write_parts.simps)
  with wp have tr: "doOpenAI_try refusing_env hello_command ''gpt-4-turbo-preview''
          (params hello_context) ''ctx:100-55'' empty_world =
        (refused_world\<lparr>trace := butlast (trace refused_world)\<rparr>,
         Inl (TransportError ''Too Many Requests''))"
    by simp
  have last_call: "telegram refusing_env (butlast (trace refused_world))
                     (internal_error_request hello_command) =
                   Inr (Message 100 64 (Some 7) (Some (''Internal error, pls @'' @ orange)) None)"
    by (simp add: refusing_env_def refusing_telegram_def picky_telegram_def sample_telegram_def
          refused_world_def internal_error_request_def hello_command_def orange_def)
  have "on_message refusing_env sample_state 7 hello_command empty_world =
        doOpenAI refusing_env hello_command ''gpt-4-turbo-preview'' (params hello_context)
          ''ctx:100-55'' empty_world"
    by (simp only: hello_is_command)
  also have "\<dots> = (refused_world\<lparr>trace := butlast (trace refused_world) @
                 [Telegram (internal_error_request hello_command)
                    (Inr (Message 100 64 (Some 7) (Some (''Internal error, pls @'' @ orange)) None))]\<rparr>,
               Inr ())"
    unfolding doOpenAI_catch tr by (simp add: Let_def last_call)
  also have "\<dots> = (refused_world, Inr ())"
    by (simp add: refused_world_def)
  finally show ?thesis .
qed

text \<open>
  C8. Every message delivered for a reply is to be linked to the context id, so that a
  reply to any delivered fragment resolves to the conversation. The code does not do so
  at this input: the command \<^verbatim>\<open>/openai hello\<close> arrives from chat 100, the provider's answer
  makes the second fragment \<^verbatim>\<open>*b\<close>, the transport refuses that fragment with Markdown
  rendering, accepts the resend without a rendering mode as message 62, and refuses the
  notice of the fallback. The notice is sent between the accepted resend and the link, so
  its refusal leaves \<^verbatim>\<open>doWriteReply\<close> before the link is made: message 62 is in the chat
  and the store holds nothing under \<^verbatim>\<open>msgid:100-62\<close>.
\<close>

theorem plain_resend_unlinked:
  "Telegram (SendMessage 100 ''*b'' (Some 56) None)
     (Inr (Message 100 62 (Some 7) (Some ''*b'') None))
     \<in> set (trace (fst (on_message refusing_env sample_state 7 hello_command empty_world)))
   \<and> getMessageId (Message 100 62 (Some 7) (Some ''*b'') None) = ''msgid:100-62''
   \<and> redis (fst (on_message refusing_env sample_state 7 hello_command empty_world))
        ''msgid:100-62'' = None"
  by (simp add: refused_run refused_world_def getMessageId_def show_int_def show_nat.simps digit_def)

section \<open>The turns of a stored context\<close>

lemma replay_links_cases:
  "list_all (link_event cid) evs \<Longrightarrow>
   replay evs st k = st k \<or> (startsWith k ''msgid:'' \<and> replay evs st k = Some cid)"
proof (induction evs arbitrary: st)
  case Nil
  show ?case by (simp add: replay_Nil)
next
  case (Cons e evs)
  then have "replay evs (apply_event st e) k = apply_event st e k
      \<or> (startsWith k ''msgid:'' \<and> replay evs (apply_event st e) k = Some cid)" by simp
  moreover have "apply_event st e k = st k \<or> (startsWith k ''msgid:'' \<and> apply_event st e k = Some cid)"
    using Cons.prems by (cases e) (auto simp: apply_event_def)
  moreover have "replay evs (apply_event st e) k = Some cid"
    if "apply_event st e k = Some cid"
    using that Cons.prems replay_links_kept[of cid evs "apply_event st e" k] by simp
  ultimately show ?case by (auto simp: replay_Cons)
qed

lemma doOpenAI_refused:
  assumes "telegram env (trace w) (placeholder_request usermsg m) = Inl e"
  shows "redis (fst (doOpenAI env usermsg m messages cid w)) = redis w"
  by (simp add: doOpenAI_catch doOpenAI_try_refused[OF assms] Let_def split: sum.splits)

lemma doOpenAI_frame:
  assumes ph: "telegram env (trace w) (placeholder_request usermsg m) = Inr respmsg"
    and cid: "startsWith cid ''ctx:''"
  shows "redis (fst (doOpenAI env usermsg m messages cid w)) k =
           (if k = cid then Some (JSON_stringify \<lparr>params = messages, model = m\<rparr>)
            else if startsWith k ''msgid:''
              then redis (fst (doOpenAI env usermsg m messages cid w)) k
            else redis w k)
         \<and> (startsWith k ''msgid:'' \<longrightarrow>
               redis (fst (doOpenAI env usermsg m messages cid w)) k = redis w k
               \<or> redis (fst (doOpenAI env usermsg m messages cid w)) k = Some cid)"
proof -
  let ?ctx = "JSON_stringify \<lparr>params = messages, model = m\<rparr>"
  let ?w' = "fst (doOpenAI env usermsg m messages cid w)"
  have nm: "\<not> startsWith cid ''msgid:''"
    using cid by (rule ctx_not_msgid)
  from doOpenAI_shape[OF ph surjective_pairing] obtain rest where
    l: "list_all (link_event cid) rest"
    and s: "redis ?w' = replay rest ((redis w)(cid \<mapsto> ?ctx, getMessageId respmsg \<mapsto> cid))"
    by blast
  have neq: "getMessageId respmsg \<noteq> cid"
    using nm startsWith_getMessageId[of respmsg] by auto
  have other: "redis ?w' k = ((redis w)(cid \<mapsto> ?ctx, getMessageId respmsg \<mapsto> cid)) k"
    if "\<not> startsWith k ''msgid:''"
    unfolding s using l that by (rule replay_links_other)
  have link: "redis ?w' k = redis w k \<or> redis ?w' k = Some cid" if "startsWith k ''msgid:''"
  proof -
    have "k \<noteq> cid" using that nm by auto
    then show ?thesis
      using replay_links_cases[OF l, of "(redis w)(cid \<mapsto> ?ctx, getMessageId respmsg \<mapsto> cid)" k]
      unfolding s by (auto split: if_splits)
  qed
  have "k \<noteq> getMessageId respmsg" if "\<not> startsWith k ''msgid:''"
    using that startsWith_getMessageId[of respmsg] by auto
  with other link nm show ?thesis by auto
qed

lemma JSON_stringify_nonempty: "JSON_stringify c \<noteq> []"
  by (simp add: JSON_stringify_def)

lemma startsWith_ctx_cons: "startsWith (''ctx:'' @ s) ''ctx:''"
  by (simp add: startsWith_def)

lemma doOpenAI_store_ok:
  assumes ok: "store_ok (redis w)"
    and cid: "startsWith cid ''ctx:''"
    and good: "user_turns_only messages"
  shows "store_ok (redis (fst (doOpenAI env usermsg m messages cid w)))"
proof (cases "telegram env (trace w) (placeholder_request usermsg m)")
  case (Inl e)
  then show ?thesis using ok by (simp add: doOpenAI_refused)
next
  case (Inr respmsg)
  let ?w' = "fst (doOpenAI env usermsg m messages cid w)"
  show ?thesis
    unfolding store_ok_def
  proof (intro allI impI)
    fix k v
    assume kv: "redis ?w' k = Some v"
    note f = doOpenAI_frame[OF Inr cid, of messages k]
    show "(startsWith k ''msgid:'' \<and> startsWith v ''ctx:'')
        \<or> (startsWith k ''ctx:'' \<and> (\<exists>c. v = JSON_stringify c \<and> user_turns_only (params c)))"
    proof (cases "k = cid")
      case True
      with f kv have "v = JSON_stringify \<lparr>params = messages, model = m\<rparr>" by simp
      moreover have "user_turns_only (params \<lparr>params = messages, model = m\<rparr>)"
        using good by simp
      ultimately show ?thesis using True cid by blast
    next
      case False
      show ?thesis
      proof (cases "startsWith k ''msgid:''")
        case True
        with f have "redis ?w' k = redis w k \<or> redis ?w' k = Some cid" by blast
        then show ?thesis
        proof
          assume "redis ?w' k = redis w k"
          with kv ok show ?thesis unfolding store_ok_def by metis
        next
          assume "redis ?w' k = Some cid"
          with kv True cid show ?thesis by simp
        qed
      next
        case nm: False
        with f False have "redis ?w' k = redis w k" by simp
        with kv ok show ?thesis unfolding store_ok_def by metis
      qed
    qed
  qed
qed

lemma send_only_redis:
  "redis (fst (bind (sendMessage env c t r pm) (\<lambda>_. return ()) w)) = redis w"
  by (simp add: bind_def sendMessage_def call_telegram_def Let_def return_def split: sum.splits)

lemma send_no_context_redis: "redis (fst (send_no_context env u w)) = redis w"
  by (simp add: send_no_context_def send_only_redis)

lemma send_unsupported_redis: "redis (fst (send_unsupported env u w)) = redis w"
  by (simp add: send_unsupported_def send_only_redis)

lemma reply_handler_loaded:
  "reply_to_message usermsg = Some replied \<Longrightarrow> redis w (getMessageId replied) = Some cid \<Longrightarrow>
   cid \<noteq> [] \<Longrightarrow> load_context env (redis w cid) = Context c \<Longrightarrow>
   reply_handler env usermsg w =
     (case msg_text usermsg of
        None \<Rightarrow> send_unsupported env usermsg w
      | Some t \<Rightarrow> doOpenAI env usermsg (model c) (params c @ [\<lparr>role = User, content = t\<rparr>]) cid w)"
  by (simp add: reply_handler_def bind_def redis_get_def split: option.splits)

lemma reply_handler_no_reply:
  "reply_to_message usermsg = None \<Longrightarrow> reply_handler env usermsg w = (w, Inr ())"
  by (simp add: reply_handler_def return_def)

lemma store_ok_link:
  assumes "store_ok st" "st k = Some v" "startsWith k ''msgid:''"
  shows "startsWith v ''ctx:''"
  using assms ctx_not_msgid[of k] unfolding store_ok_def by blast

lemma store_ok_context:
  assumes "store_ok st" "st k = Some v" "startsWith k ''ctx:''"
  shows "\<exists>c. v = JSON_stringify c \<and> user_turns_only (params c)"
  using assms ctx_not_msgid[of k] unfolding store_ok_def by blast

lemma reply_handler_effect:
  assumes rt: "\<forall>c. JSON_parse env (JSON_stringify c) = Context c"
    and ok: "store_ok (redis w)"
  shows "redis (fst (reply_handler env u w)) = redis w
         \<or> (\<exists>cid c t. redis w cid = Some (JSON_stringify c) \<and> startsWith cid ''ctx:''
               \<and> user_turns_only (params c)
               \<and> reply_handler env u w =
                   doOpenAI env u (model c) (params c @ [\<lparr>role = User, content = t\<rparr>]) cid w)"
proof (cases "reply_to_message u")
  case None
  then show ?thesis by (simp add: reply_handler_no_reply)
next
  case (Some replied)
  show ?thesis
  proof (cases "redis w (getMessageId replied)")
    case None
    with Some show ?thesis by (simp add: reply_handler_unlinked send_no_context_redis)
  next
    case link: (Some cid)
    show ?thesis
    proof (cases "cid = []")
      case True
      with Some link show ?thesis by (simp add: reply_handler_empty_link send_no_context_redis)
    next
      case False
      have cid: "startsWith cid ''ctx:''"
        using ok link startsWith_getMessageId by (rule store_ok_link)
      show ?thesis
      proof (cases "redis w cid")
        case None
        then have "load_context env (redis w cid) = Falsy" by (simp add: load_context_def)
        with Some link False show ?thesis
          by (simp add: reply_handler_not_loaded send_no_context_redis)
      next
        case data: (Some d)
        from store_ok_context[OF ok data cid] obtain c where
          c: "d = JSON_stringify c" "user_turns_only (params c)" by blast
        have "load_context env (redis w cid) = Context c"
          using rt by (simp add: data c(1) load_context_def JSON_stringify_nonempty)
        note rh = reply_handler_loaded[OF Some link False this]
        show ?thesis
        proof (cases "msg_text u")
          case None
          with rh show ?thesis by (simp add: send_unsupported_redis)
        next
          case (Some t)
          with rh have "reply_handler env u w =
              doOpenAI env u (model c) (params c @ [\<lparr>role = User, content = t\<rparr>]) cid w"
            by simp
          with data c cid show ?thesis by blast
        qed
      qed
    qed
  qed
qed

lemma on_message_effect:
  "redis (fst (on_message env state botID u w)) = redis w
   \<or> (\<exists>p m. on_message env state botID u w =
          doOpenAI env u m [system_primer, \<lparr>role = User, content = p\<rparr>]
            (''ctx:'' @ show_int (chat_id u) @ ''-'' @ show_int (message_id u)) w)
   \<or> on_message env state botID u w = reply_handler env u w"
  by (auto simp: on_message_def Let_def send_only_redis return_def split: option.splits)

lemma user_turns_only_new: "user_turns_only [system_primer, \<lparr>role = User, content = p\<rparr>]"
  by (simp add: user_turns_only_def)

lemma user_turns_only_append:
  "user_turns_only ts \<Longrightarrow> user_turns_only (ts @ [\<lparr>role = User, content = t\<rparr>])"
  by (cases ts) (simp_all add: user_turns_only_def)

lemma on_message_store_ok:
  assumes rt: "\<forall>c. JSON_parse env (JSON_stringify c) = Context c"
    and ok: "store_ok (redis w)"
  shows "store_ok (redis (fst (on_message env state botID u w)))"
proof -
  consider "redis (fst (on_message env state botID u w)) = redis w"
    | p m where "on_message env state botID u w =
          doOpenAI env u m [system_primer, \<lparr>role = User, content = p\<rparr>]
            (''ctx:'' @ show_int (chat_id u) @ ''-'' @ show_int (message_id u)) w"
    | "on_message env state botID u w = reply_handler env u w"
    using on_message_effect[of env state botID u w] by blast
  then show ?thesis
  proof cases
    case 1
    with ok show ?thesis by simp
  next
    case 2
    show ?thesis
      unfolding 2 using ok startsWith_ctx_cons user_turns_only_new by (rule doOpenAI_store_ok)
  next
    case 3
    from reply_handler_effect[OF rt ok, of u]
    consider "redis (fst (reply_handler env u w)) = redis w"
      | cid and c :: ChatContext and t where "startsWith cid ''ctx:''" "user_turns_only (params c)"
        "reply_handler env u w =
           doOpenAI env u (model c) (params c @ [\<lparr>role = User, content = t\<rparr>]) cid w"
      by blast
    then show ?thesis
    proof cases
      case 1
      with ok 3 show ?thesis by simp
    next
      case 2
      then show ?thesis
        unfolding 3 using ok by (simp add: doOpenAI_store_ok user_turns_only_append)
    qed
  qed
qed

lemma run_store_ok:
  assumes rt: "\<forall>c. JSON_parse env (JSON_stringify c) = Context c"
  shows "store_ok (redis w) \<Longrightarrow> store_ok (redis (run env state botID updates w))"
proof (induction updates arbitrary: w)
  case Nil
  then show ?case by simp
next
  case (Cons u us)
  from on_message_store_ok[OF rt Cons.prems] show ?case
    by (simp add: Cons.IH)
qed

lemma store_ok_empty: "store_ok (redis empty_world)"
  by (simp add: store_ok_def empty_world_def)

lemma sample_roundtrip: "\<forall>c. JSON_parse sample_env (JSON_stringify c) = Context c"
  by (simp add: sample_env_def parse_context_stringify)

lemma sample_accepts: "\<exists>msg. telegram sample_env tr q = Inr msg"
  by (cases q) (simp_all add: sample_env_def sample_telegram_def)

lemma more_run:
  "redis (run sample_env sample_state 7 [hello_command, more_reply] empty_world) ''ctx:100-55''
     = Some (JSON_stringify more_context)"
proof -
  define w1 where "w1 = fst (on_message sample_env sample_state 7 hello_command empty_world)"
  have r1: "redis w1 = [''ctx:100-55'' \<mapsto> JSON_stringify hello_context,
                        ''msgid:100-56'' \<mapsto> ''ctx:100-55'']"
    by (simp add: w1_def hello_run)
  have replied: "reply_to_message more_reply = Some sample_placeholder"
    by (simp add: more_reply_def)
  have link: "redis w1 (getMessageId sample_placeholder) = Some ''ctx:100-55''"
    by (simp add: r1 sample_placeholder_def getMessageId_56)
  have "load_context sample_env (redis w1 ''ctx:100-55'') = Context hello_context"
    using sample_roundtrip by (simp add: r1 load_context_def JSON_stringify_nonempty)
  from reply_handler_loaded[OF replied link _ this]
  have rh: "reply_handler sample_env more_reply w1 =
        doOpenAI sample_env more_reply ''gpt-4-turbo-preview'' (params more_context) ''ctx:100-55'' w1"
    by (simp add: more_reply_def hello_context_def more_context_def)
  obtain respmsg where ph: "telegram sample_env (trace w1)
      (placeholder_request more_reply ''gpt-4-turbo-preview'') = Inr respmsg"
    using sample_accepts by blast
  have ctx: "\<lparr>params = params more_context, model = ''gpt-4-turbo-preview''\<rparr> = more_context"
    by (simp add: more_context_def)
  have "redis (fst (doOpenAI sample_env more_reply ''gpt-4-turbo-preview'' (params more_context)
                      ''ctx:100-55'' w1)) ''ctx:100-55'' = Some (JSON_stringify more_context)"
    using doOpenAI_frame[OF ph startsWith_ctx_cons[of "''100-55''"], of "params more_context" "''ctx:100-55''"]
    by (simp add: ctx)
  moreover have "run sample_env sample_state 7 [hello_command, more_reply] empty_world =
        fst (doOpenAI sample_env more_reply ''gpt-4-turbo-preview'' (params more_context)
               ''ctx:100-55'' w1)"
    by (simp only: run.simps w1_def[symmetric] more_is_reply rh)
  ultimately show ?thesis
    by (simp only:)
qed

text \<open>After the sample command and a reply to the bot's message with the text
  \<open>tell me more\<close>, the context stored under \<open>ctx:100-55\<close> has the roles system, user,
  user: two user turns follow each other.\<close>

theorem persisted_turns_counterexample:
  "redis (run sample_env sample_state 7 [hello_command, more_reply] empty_world) ''ctx:100-55''
     = Some (JSON_stringify more_context)
   \<and> map role (params more_context) = [System, User, User]
   \<and> \<not> strictly_alternates (params more_context)"
proof -
  have "map role (params more_context) = [System, User, User]"
    and "\<not> strictly_alternates (params more_context)"
    by (simp_all add: more_context_def strictly_alternates_def system_primer_def)
  with more_run show ?thesis by blast
qed

text \<open>
  C2, as the code has it. Let \<open>JSON.parse\<close> read back what \<open>JSON.stringify\<close> writes. In
  every store reached from the empty store by handling updates one after the other,
  every value under a context id is the text of a context whose turns are the system
  primer followed by one or more turns of the user: no assistant turn is stored. A
  continuation handled in such a store leaves the context under a context id as it is or
  stores it with exactly one user turn appended and the turns before it unchanged.
\<close>

theorem persisted_turns:
  assumes rt: "\<forall>c. JSON_parse env (JSON_stringify c) = Context c"
  shows "(\<forall>k v. redis (run env state botID updates empty_world) k = Some v
            \<longrightarrow> startsWith k ''ctx:''
            \<longrightarrow> (\<exists>c. v = JSON_stringify c \<and> user_turns_only (params c)))
         \<and> (\<forall>k c. redis (run env state botID updates empty_world) k = Some (JSON_stringify c)
               \<longrightarrow> startsWith k ''ctx:''
               \<longrightarrow> redis (fst (reply_handler env u (run env state botID updates empty_world))) k
                     = Some (JSON_stringify c)
                   \<or> (\<exists>t. redis (fst (reply_handler env u (run env state botID updates empty_world))) k
                           = Some (JSON_stringify
                                     \<lparr>params = params c @ [\<lparr>role = User, content = t\<rparr>],
                                      model = model c\<rparr>)))"
proof -
  define w where "w = run env state botID updates empty_world"
  have ok: "store_ok (redis w)"
    unfolding w_def using rt store_ok_empty by (rule run_store_ok)
  have inj: "c = c'" if "JSON_stringify c = JSON_stringify c'" for c c' :: ChatContext
  proof -
    have "Context c = JSON_parse env (JSON_stringify c)" using rt by simp
    also have "\<dots> = Context c'" using rt that by simp
    finally show ?thesis by simp
  qed
  have one: "\<exists>c. v = JSON_stringify c \<and> user_turns_only (params c)"
    if "redis w k = Some v" "startsWith k ''ctx:''" for k v
    using ok that by (rule store_ok_context)
  have two: "redis (fst (reply_handler env u w)) k = Some (JSON_stringify c)
             \<or> (\<exists>t. redis (fst (reply_handler env u w)) k
                     = Some (JSON_stringify \<lparr>params = params c @ [\<lparr>role = User, content = t\<rparr>],
                                             model = model c\<rparr>))"
    if kc: "redis w k = Some (JSON_stringify c)" and k: "startsWith k ''ctx:''" for k and c :: ChatContext
  proof -
    from reply_handler_effect[OF rt ok, of u]
    consider "redis (fst (reply_handler env u w)) = redis w"
      | cid and c0 :: ChatContext and t where "redis w cid = Some (JSON_stringify c0)"
        "startsWith cid ''ctx:''"
        "reply_handler env u w =
           doOpenAI env u (model c0) (params c0 @ [\<lparr>role = User, content = t\<rparr>]) cid w"
      by blast
    then show ?thesis
    proof cases
      case 1
      with kc show ?thesis by simp
    next
      case 2
      show ?thesis
      proof (cases "telegram env (trace w) (placeholder_request u (model c0))")
        case (Inl e)
        then show ?thesis using kc by (simp add: 2(3) doOpenAI_refused)
      next
        case (Inr respmsg)
        note f = doOpenAI_frame[OF Inr 2(2), of "params c0 @ [\<lparr>role = User, content = t\<rparr>]" k]
        have nm: "\<not> startsWith k ''msgid:''" using k by (rule ctx_not_msgid)
        show ?thesis
        proof (cases "k = cid")
          case True
          with kc 2(1) have "c = c0" by (simp add: inj)
          with f True show ?thesis unfolding 2(3) by auto
        next
          case False
          with f nm kc show ?thesis unfolding 2(3) by simp
        qed
      qed
    qed
  qed
  show ?thesis
    using one two unfolding w_def by blast
qed

theorem persisted_turns_witness:
  "\<exists>c. redis (run sample_env sample_state 7 [hello_command, more_reply] empty_world) ''ctx:100-55''
         = Some (JSON_stringify c)
       \<and> user_turns_only (params c)"
proof -
  have "startsWith ''ctx:100-55'' ''ctx:''"
    by (simp add: startsWith_def)
  moreover note persisted_turns[OF sample_roundtrip, of sample_state 7 "[hello_command, more_reply]"
      more_reply, THEN conjunct1]
  ultimately obtain c :: ChatContext where "JSON_stringify more_context = JSON_stringify c"
    "user_turns_only (params c)"
    using more_run by blast
  with more_run show ?thesis
    by (intro exI[of _ c]) simp
qed

end
